theory Spec2Isabelle
  imports Main "HOL-Library.AList"
begin

section \<open>Python values used by the outreach pipeline\<close>

text \<open>
  The repository is a Python program: \<^verbatim>\<open>ai_email_gtm_outreach_agent.py\<close> (JSON extraction,
  four stage runners, the Streamlit handler \<^verbatim>\<open>main\<close>) and \<^verbatim>\<open>prompts.py\<close> (instruction lists,
  the style table, prompt templates).

  A Python \<^verbatim>\<open>str\<close> is a sequence of Unicode code points; \<^verbatim>\<open>len\<close>, \<^verbatim>\<open>find\<close>, \<^verbatim>\<open>rfind\<close> and slicing
  count code points. It is modelled as a list of natural numbers, one per code point, and
  \<open>py\<close> turns an ASCII literal into such a list.
\<close>

type_synonym pystr = "nat list"

definition py :: "string \<Rightarrow> pystr" where
  "py cs = map of_char cs"

text \<open>Python slicing \<^verbatim>\<open>xs[i:j]\<close>: a negative index counts from the end, both are clamped.\<close>

definition py_slice :: "'a list \<Rightarrow> int \<Rightarrow> int \<Rightarrow> 'a list" where
  "py_slice xs i j =
     (let n = int (length xs);
          a = (if i < 0 then max 0 (n + i) else min i n);
          b = (if j < 0 then max 0 (n + j) else min j n)
      in take (nat (b - a)) (drop (nat a) xs))"

text \<open>\<^verbatim>\<open>text.find(ch)\<close> and \<^verbatim>\<open>text.rfind(ch)\<close> for a one-character needle: the lowest
  (highest) index of \<open>ch\<close>, or \<open>-1\<close>.\<close>

fun find_from :: "nat \<Rightarrow> nat \<Rightarrow> pystr \<Rightarrow> int" where
  "find_from ch i [] = - 1"
| "find_from ch i (c # cs) = (if c = ch then int i else find_from ch (Suc i) cs)"

definition py_find :: "pystr \<Rightarrow> nat \<Rightarrow> int" where
  "py_find text ch = find_from ch 0 text"

definition py_rfind :: "pystr \<Rightarrow> nat \<Rightarrow> int" where
  "py_rfind text ch =
     (let k = find_from ch 0 (rev text)
      in if k = - 1 then - 1 else int (length text) - 1 - k)"

text \<open>\<^verbatim>\<open>sub in s\<close> on strings: \<open>sub\<close> occurs in \<open>s\<close> as a contiguous substring.\<close>

fun py_in :: "pystr \<Rightarrow> pystr \<Rightarrow> bool" where
  "py_in sub [] = (sub = [])"
| "py_in sub (c # s) = (take (length sub) (c # s) = sub \<or> py_in sub s)"

text \<open>\<^verbatim>\<open>str(n)\<close> for an integer: decimal digits, with a leading minus sign when negative.\<close>

function str_nat :: "nat \<Rightarrow> pystr" where
  "str_nat n = (if n < 10 then [48 + n] else str_nat (n div 10) @ [48 + n mod 10])"
  by pat_completeness auto
termination
  by (relation "measure id") auto

declare str_nat.simps [simp del]

definition str_int :: "int \<Rightarrow> pystr" where
  "str_int i = (if i < 0 then 45 # str_nat (nat (- i)) else str_nat (nat i))"

subsection \<open>JSON values\<close>

text \<open>
  What \<^verbatim>\<open>json.loads\<close> returns: \<^verbatim>\<open>None\<close>, a \<^verbatim>\<open>bool\<close>, an \<^verbatim>\<open>int\<close> (unbounded), a \<^verbatim>\<open>float\<close>, a
  \<^verbatim>\<open>str\<close>, a \<^verbatim>\<open>list\<close> or a \<^verbatim>\<open>dict\<close> with \<^verbatim>\<open>str\<close> keys. A \<^verbatim>\<open>dict\<close> keeps its keys in insertion
  order and holds each key once: it is an association list with distinct keys. Floating-point
  arithmetic is outside this development: a float is represented by the literal that denotes
  it (\<open>JFloat\<close>), and nothing below computes with it.
\<close>

datatype json =
    JNull
  | JBool bool
  | JInt int
  | JFloat pystr
  | JString pystr
  | JArray "json list"
  | JObject "(pystr \<times> json) list"

text \<open>\<^verbatim>\<open>dict(pairs)\<close>: later pairs overwrite the value of an earlier equal key in place.\<close>

definition dict_of_pairs :: "(pystr \<times> json) list \<Rightarrow> (pystr \<times> json) list" where
  "dict_of_pairs ps = foldl (\<lambda>d (k, v). AList.update k v d) [] ps"

subsection \<open>Exceptions\<close>

text \<open>
  The exceptions that can leave the repository's functions. \<open>JSONDecodeError msg doc pos\<close> is
  the decoder's error with its three attributes; \<open>AgentError\<close> stands for whatever the
  external agent raises from \<^verbatim>\<open>agent.run\<close>, with its message.
\<close>

datatype error =
    JSONDecodeError pystr pystr nat
  | ValueError pystr
  | TypeError pystr
  | AttributeError pystr
  | AgentError pystr

text \<open>\<^verbatim>\<open>doc.count('\n', 0, pos) + 1\<close> and \<^verbatim>\<open>pos - doc.rfind('\n', 0, pos)\<close> of
  \<^verbatim>\<open>JSONDecodeError.__init__\<close>.\<close>

definition lineno :: "pystr \<Rightarrow> nat \<Rightarrow> nat" where
  "lineno doc pos = length (filter (\<lambda>c. c = 10) (take pos doc)) + 1"

definition colno :: "pystr \<Rightarrow> nat \<Rightarrow> nat" where
  "colno doc pos = nat (int pos - py_rfind (take pos doc) 10)"

text \<open>\<^verbatim>\<open>str(e)\<close>, which is what an f-string \<^verbatim>\<open>{e}\<close> renders.\<close>

fun str_error :: "error \<Rightarrow> pystr" where
  "str_error (JSONDecodeError msg doc pos) =
     msg @ py '': line '' @ str_nat (lineno doc pos) @ py '' column '' @ str_nat (colno doc pos)
       @ py '' (char '' @ str_nat pos @ py '')''"
| "str_error (ValueError m) = m"
| "str_error (TypeError m) = m"
| "str_error (AttributeError m) = m"
| "str_error (AgentError m) = m"

section \<open>The JSON decoder \<^verbatim>\<open>json.loads\<close>\<close>

text \<open>
  \<^verbatim>\<open>extract_json_or_raise\<close> calls \<^verbatim>\<open>json.loads\<close> of the standard library on a \<^verbatim>\<open>str\<close>. The
  functions below follow the decoder as CPython runs it (the scanner and \<^verbatim>\<open>scanstring\<close> of
  the \<^verbatim>\<open>_json\<close> accelerator, driven by \<^verbatim>\<open>JSONDecoder.decode\<close>), with default arguments:
  strict mode, no hooks. They work on the part of the document that is still unread; a
  failure records how many characters were left at the place the decoder reports, and
  \<open>json_loads\<close> turns that into the position \<^verbatim>\<open>pos\<close> of the error. Two resource limits of
  the interpreter are not modelled: the recursion limit and the limit on the number of
  digits of an integer literal.
\<close>

datatype scan_fail =
    StopIteration nat
  | DecodeError pystr nat

definition is_ws :: "nat \<Rightarrow> bool" where
  "is_ws c = (c = 32 \<or> c = 9 \<or> c = 10 \<or> c = 13)"

definition skip_ws :: "pystr \<Rightarrow> pystr" where
  "skip_ws s = dropWhile is_ws s"

definition is_digit :: "nat \<Rightarrow> bool" where
  "is_digit c = (48 \<le> c \<and> c \<le> 57)"

definition next_is :: "nat \<Rightarrow> pystr \<Rightarrow> bool" where
  "next_is ch s = (case s of [] \<Rightarrow> False | c # _ \<Rightarrow> c = ch)"

definition starts_with :: "pystr \<Rightarrow> pystr \<Rightarrow> bool" where
  "starts_with s p = (take (length p) s = p)"

subsection \<open>Strings\<close>

definition hex_digit :: "nat \<Rightarrow> nat option" where
  "hex_digit c =
     (if 48 \<le> c \<and> c \<le> 57 then Some (c - 48)
      else if 97 \<le> c \<and> c \<le> 102 then Some (c - 87)
      else if 65 \<le> c \<and> c \<le> 70 then Some (c - 55)
      else None)"

definition hex4 :: "pystr \<Rightarrow> nat option" where
  "hex4 cs =
     (case map hex_digit cs of
        [Some a, Some b, Some c, Some d] \<Rightarrow> Some (((a * 16 + b) * 16 + c) * 16 + d)
      | _ \<Rightarrow> None)"

text \<open>The one-character escapes \<^verbatim>\<open>\" \\ \/ \b \f \n \r \t\<close>.\<close>

definition backslash :: "nat \<Rightarrow> nat option" where
  "backslash e =
     (if e = 34 then Some 34 else if e = 92 then Some 92 else if e = 47 then Some 47
      else if e = 98 then Some 8 else if e = 102 then Some 12 else if e = 110 then Some 10
      else if e = 114 then Some 13 else if e = 116 then Some 9 else None)"

definition msg_unterminated :: pystr where
  "msg_unterminated = py ''Unterminated string starting at''"

definition msg_control :: pystr where
  "msg_control = py ''Invalid control character at''"

definition msg_escape :: pystr where
  "msg_escape = py ''Invalid '' @ [92] @ py ''escape''"

definition msg_uXXXX :: pystr where
  "msg_uXXXX = py ''Invalid '' @ [92] @ py ''uXXXX escape''"

definition push :: "nat \<Rightarrow> scan_fail + pystr \<times> pystr \<Rightarrow> scan_fail + pystr \<times> pystr" where
  "push ch res = (case res of Inl e \<Rightarrow> Inl e | Inr (cs, r) \<Rightarrow> Inr (ch # cs, r))"

text \<open>
  \<open>scanstring b s\<close> reads a string whose opening quote has been consumed; \<open>b\<close> is the number
  of characters that were left at that quote. A high surrogate escape directly followed by
  a low surrogate escape (and at least one more character) is joined into one code point.
\<close>

function scanstring :: "nat \<Rightarrow> pystr \<Rightarrow> scan_fail + pystr \<times> pystr" where
  "scanstring b [] = Inl (DecodeError msg_unterminated b)"
| "scanstring b (c # t) =
     (if c = 34 then Inr ([], t)
      else if c = 92 then
        (case t of
           [] \<Rightarrow> Inl (DecodeError msg_unterminated b)
         | e # u \<Rightarrow>
             if e \<noteq> 117 then
               (case backslash e of
                  None \<Rightarrow> Inl (DecodeError msg_escape (length t + 1))
                | Some ch \<Rightarrow> push ch (scanstring b u))
             else if length u \<le> 4 then Inl (DecodeError msg_uXXXX (length u + 1))
             else
               (case hex4 (take 4 u) of
                  None \<Rightarrow> Inl (DecodeError msg_uXXXX (length u + 1))
                | Some uni \<Rightarrow>
                    (let r = drop 4 u in
                     if 0xD800 \<le> uni \<and> uni \<le> 0xDBFF \<and> 6 < length r \<and> take 2 r = [92, 117] then
                       (case hex4 (take 4 (drop 2 r)) of
                          None \<Rightarrow> Inl (DecodeError msg_uXXXX (length r - 1))
                        | Some uni2 \<Rightarrow>
                            if 0xDC00 \<le> uni2 \<and> uni2 \<le> 0xDFFF then
                              push (0x10000 + (uni - 0xD800) * 1024 + (uni2 - 0xDC00))
                                (scanstring b (drop 6 r))
                            else push uni (scanstring b r))
                     else push uni (scanstring b r))))
      else if c \<le> 31 then Inl (DecodeError msg_control (length t + 1))
      else push c (scanstring b t))"
  by pat_completeness auto
termination
  by (relation "measure (\<lambda>(b, s). length s)") auto

subsection \<open>Numbers\<close>

text \<open>
  The number grammar \<^verbatim>\<open>-?(0|[1-9][0-9]*)(\.[0-9]+)?([eE][-+]?[0-9]+)?\<close>. A literal with a
  fraction or an exponent is a float, any other an integer.
\<close>

definition digits_value :: "pystr \<Rightarrow> nat" where
  "digits_value ds = foldl (\<lambda>a d. 10 * a + (d - 48)) 0 ds"

definition int_of_literal :: "pystr \<Rightarrow> int" where
  "int_of_literal lit =
     (if next_is 45 lit then - int (digits_value (tl lit)) else int (digits_value lit))"

definition match_frac :: "pystr \<Rightarrow> pystr \<times> pystr" where
  "match_frac s =
     (case s of
        p # d # t \<Rightarrow>
          if p = 46 \<and> is_digit d then (p # d # takeWhile is_digit t, dropWhile is_digit t)
          else ([], s)
      | _ \<Rightarrow> ([], s))"

definition match_exp :: "pystr \<Rightarrow> pystr \<times> pystr" where
  "match_exp s =
     (case s of
        [] \<Rightarrow> ([], s)
      | e # t \<Rightarrow>
          if e = 101 \<or> e = 69 then
            (let sg = (if next_is 45 t \<or> next_is 43 t then take 1 t else []);
                 t' = drop (length sg) t;
                 ds = takeWhile is_digit t'
             in if ds = [] then ([], s) else (e # sg @ ds, dropWhile is_digit t'))
          else ([], s))"

definition match_int :: "pystr \<Rightarrow> (pystr \<times> pystr) option" where
  "match_int s =
     (let sg = (if next_is 45 s then [45] else []);
          s1 = drop (length sg) s
      in case s1 of
           [] \<Rightarrow> None
         | c # t \<Rightarrow>
             if 49 \<le> c \<and> c \<le> 57 then Some (sg @ c # takeWhile is_digit t, dropWhile is_digit t)
             else if c = 48 then Some (sg @ [48], t)
             else None)"

definition match_number :: "pystr \<Rightarrow> scan_fail + json \<times> pystr" where
  "match_number s =
     (case match_int s of
        None \<Rightarrow> Inl (StopIteration (length s))
      | Some (ip, s2) \<Rightarrow>
          (let (frac, s3) = match_frac s2;
               (ex, s4) = match_exp s3
           in if frac = [] \<and> ex = [] then Inr (JInt (int_of_literal ip), s4)
              else Inr (JFloat (ip @ frac @ ex), s4)))"

subsection \<open>Values, arrays and objects\<close>

lemma scanstring_shorter: "scanstring b s = Inr (cs, r) \<Longrightarrow> length r < length s"
proof (induction b s arbitrary: cs r rule: scanstring.induct)
  case (1 b)
  then show ?case by simp
next
  case (2 b c t)
  show ?case
    using "2.prems" "2.IH"
    by (fastforce simp: push_def Let_def
        split: if_splits list.splits option.splits sum.splits prod.splits)
qed

lemma length_skip_ws: "length (skip_ws s) \<le> length s"
  by (simp add: skip_ws_def length_dropWhile_le)

lemma length_tl_skip_ws: "length (skip_ws (tl s)) \<le> length s"
  using length_skip_ws [of "tl s"] by simp

definition msg_property_name :: pystr where
  "msg_property_name = py ''Expecting property name enclosed in double quotes''"

definition msg_colon :: pystr where
  "msg_colon = py ''Expecting ':' delimiter''"

definition msg_comma :: pystr where
  "msg_comma = py ''Expecting ',' delimiter''"

text \<open>
  \<open>scan_once s\<close> reads one value at the start of \<open>s\<close> and returns it with the rest.
  \<open>parse_array s\<close> reads the elements of an array from the first element on, \<open>parse_object s\<close>
  the members of an object from the first key on, both up to the closing bracket. Each
  checks that the value just read consumed input before it goes on: the check is what
  makes the recursion well-founded, and \<open>scan_once_shorter\<close> below shows that it never fails.
\<close>

function scan_once :: "pystr \<Rightarrow> scan_fail + json \<times> pystr"
  and parse_array :: "pystr \<Rightarrow> scan_fail + json list \<times> pystr"
  and parse_object :: "pystr \<Rightarrow> scan_fail + (pystr \<times> json) list \<times> pystr"
where
  "scan_once s =
     (case s of
        [] \<Rightarrow> Inl (StopIteration 0)
      | c # t \<Rightarrow>
          if c = 34 then
            (case scanstring (length s) t of
               Inl e \<Rightarrow> Inl e
             | Inr (cs, r) \<Rightarrow> Inr (JString cs, r))
          else if c = 123 then
            (let t' = skip_ws t in
             if next_is 125 t' then Inr (JObject [], tl t')
             else (case parse_object t' of
                     Inl e \<Rightarrow> Inl e
                   | Inr (ps, r) \<Rightarrow> Inr (JObject (dict_of_pairs ps), r)))
          else if c = 91 then
            (let t' = skip_ws t in
             if next_is 93 t' then Inr (JArray [], tl t')
             else (case parse_array t' of
                     Inl e \<Rightarrow> Inl e
                   | Inr (vs, r) \<Rightarrow> Inr (JArray vs, r)))
          else if starts_with s (py ''null'') then Inr (JNull, drop 4 s)
          else if starts_with s (py ''true'') then Inr (JBool True, drop 4 s)
          else if starts_with s (py ''false'') then Inr (JBool False, drop 5 s)
          else if starts_with s (py ''NaN'') then Inr (JFloat (py ''NaN''), drop 3 s)
          else if starts_with s (py ''Infinity'') then Inr (JFloat (py ''Infinity''), drop 8 s)
          else if starts_with s (py ''-Infinity'') then Inr (JFloat (py ''-Infinity''), drop 9 s)
          else match_number s)"
| "parse_array s =
     (case scan_once s of
        Inl e \<Rightarrow> Inl e
      | Inr (v, r) \<Rightarrow>
          if length r < length s then
            (let r' = skip_ws r in
             if next_is 93 r' then Inr ([v], tl r')
             else if next_is 44 r' then
               (case parse_array (skip_ws (tl r')) of
                  Inl e \<Rightarrow> Inl e
                | Inr (vs, r'') \<Rightarrow> Inr (v # vs, r''))
             else Inl (DecodeError msg_comma (length r')))
          else Inl (StopIteration (length s)))"
| "parse_object s =
     (if \<not> next_is 34 s then Inl (DecodeError msg_property_name (length s))
      else
        (case scanstring (length s) (tl s) of
           Inl e \<Rightarrow> Inl e
         | Inr (key, r) \<Rightarrow>
             (let r1 = skip_ws r in
              if \<not> next_is 58 r1 then Inl (DecodeError msg_colon (length r1))
              else
                (let r2 = skip_ws (tl r1) in
                 case scan_once r2 of
                   Inl e \<Rightarrow> Inl e
                 | Inr (v, r3) \<Rightarrow>
                     if length r3 < length r2 then
                       (let r4 = skip_ws r3 in
                        if next_is 125 r4 then Inr ([(key, v)], tl r4)
                        else if next_is 44 r4 then
                          (case parse_object (skip_ws (tl r4)) of
                             Inl e \<Rightarrow> Inl e
                           | Inr (ps, r5) \<Rightarrow> Inr ((key, v) # ps, r5))
                        else Inl (DecodeError msg_comma (length r4)))
                     else Inl (StopIteration (length r2))))))"
  by pat_completeness auto

termination
proof (relation "measure (\<lambda>x. case x of
          Inl s \<Rightarrow> 2 * length s
        | Inr (Inl s) \<Rightarrow> 2 * length s + 1
        | Inr (Inr s) \<Rightarrow> 2 * length s + 1)", goal_cases)
  case 1
  then show ?case by simp
next
  case (2 s c t t')
  then show ?case using length_skip_ws [of t] by simp
next
  case (3 s c t t')
  then show ?case using length_skip_ws [of t] by simp
next
  case (4 s)
  then show ?case by simp
next
  case (5 s p v r r')
  then show ?case using length_tl_skip_ws [of "skip_ws r"] length_skip_ws [of r] by simp
next
  case (6 s p key r r1 r2)
  then show ?case
    using scanstring_shorter [of "length s" "tl s" key r]
      length_tl_skip_ws [of "skip_ws r"] length_skip_ws [of r]
    by simp
next
  case (7 s p key r r1 r2 q v r3 r4)
  then show ?case
    using scanstring_shorter [of "length s" "tl s" key r]
      length_tl_skip_ws [of "skip_ws r"] length_skip_ws [of r]
      length_tl_skip_ws [of "skip_ws r3"] length_skip_ws [of r3]
    by simp
qed

declare scan_once.simps [simp del] parse_array.simps [simp del] parse_object.simps [simp del]

definition msg_bom :: pystr where
  "msg_bom = py ''Unexpected UTF-8 BOM (decode using utf-8-sig)''"

text \<open>\<^verbatim>\<open>json.loads(s)\<close>: one value, white space around it, nothing else.\<close>

definition json_loads :: "pystr \<Rightarrow> error + json" where
  "json_loads s =
     (if next_is 0xFEFF s then Inl (JSONDecodeError msg_bom s 0)
      else
        (case scan_once (skip_ws s) of
           Inl (StopIteration left) \<Rightarrow> Inl (JSONDecodeError (py ''Expecting value'') s (length s - left))
         | Inl (DecodeError msg left) \<Rightarrow> Inl (JSONDecodeError msg s (length s - left))
         | Inr (v, r) \<Rightarrow>
             (let r' = skip_ws r in
              if r' = [] then Inr v
              else Inl (JSONDecodeError (py ''Extra data'') s (length s - length r')))))"

section \<open>The JSON encoder \<^verbatim>\<open>json.dumps\<close>\<close>

text \<open>
  \<^verbatim>\<open>json.dumps(obj, ensure_ascii=...)\<close> with the default separators \<^verbatim>\<open>", "\<close> and \<^verbatim>\<open>": "\<close>. The
  runners call it with \<^verbatim>\<open>ensure_ascii=False\<close>; the default is \<^verbatim>\<open>True\<close>. A float is written as
  the literal that represents it.
\<close>

definition hex_char :: "nat \<Rightarrow> nat" where
  "hex_char d = (if d < 10 then 48 + d else 87 + d)"

text \<open>\<^verbatim>\<open>'\\u{0:04x}'.format(n)\<close> for \<open>n < 0x10000\<close>.\<close>

definition u_escape :: "nat \<Rightarrow> pystr" where
  "u_escape n =
     [92, 117, hex_char (n div 4096 mod 16), hex_char (n div 256 mod 16),
      hex_char (n div 16 mod 16), hex_char (n mod 16)]"

definition escape_char :: "bool \<Rightarrow> nat \<Rightarrow> pystr" where
  "escape_char ensure_ascii c =
     (if c = 92 then [92, 92]
      else if c = 34 then [92, 34]
      else if c = 8 then [92, 98]
      else if c = 12 then [92, 102]
      else if c = 10 then [92, 110]
      else if c = 13 then [92, 114]
      else if c = 9 then [92, 116]
      else if c < 32 then u_escape c
      else if \<not> ensure_ascii \<or> c \<le> 126 then [c]
      else if c < 0x10000 then u_escape c
      else u_escape (0xD800 + (c - 0x10000) div 1024 mod 1024)
             @ u_escape (0xDC00 + (c - 0x10000) mod 1024))"

definition encode_basestring :: "bool \<Rightarrow> pystr \<Rightarrow> pystr" where
  "encode_basestring ensure_ascii s = 34 # concat (map (escape_char ensure_ascii) s) @ [34]"

fun json_dumps :: "bool \<Rightarrow> json \<Rightarrow> pystr"
  and dumps_items :: "bool \<Rightarrow> json list \<Rightarrow> pystr"
  and dumps_pairs :: "bool \<Rightarrow> (pystr \<times> json) list \<Rightarrow> pystr"
where
  "json_dumps ea JNull = py ''null''"
| "json_dumps ea (JBool b) = (if b then py ''true'' else py ''false'')"
| "json_dumps ea (JInt i) = str_int i"
| "json_dumps ea (JFloat lit) = lit"
| "json_dumps ea (JString s) = encode_basestring ea s"
| "json_dumps ea (JArray vs) = 91 # dumps_items ea vs"
| "json_dumps ea (JObject ps) = 123 # dumps_pairs ea ps"
| "dumps_items ea [] = [93]"
| "dumps_items ea [v] = json_dumps ea v @ [93]"
| "dumps_items ea (v # w # vs) = json_dumps ea v @ [44, 32] @ dumps_items ea (w # vs)"
| "dumps_pairs ea [] = [125]"
| "dumps_pairs ea [(k, v)] = encode_basestring ea k @ [58, 32] @ json_dumps ea v @ [125]"
| "dumps_pairs ea ((k, v) # q # ps) =
     encode_basestring ea k @ [58, 32] @ json_dumps ea v @ [44, 32] @ dumps_pairs ea (q # ps)"

subsection \<open>Values that JSON text represents\<close>

text \<open>
  The structures for which serialising and parsing is claimed to be the identity: \<^verbatim>\<open>None\<close>,
  booleans, integers, strings, lists and dictionaries of such. With \<^verbatim>\<open>ensure_ascii\<close> the
  encoder writes a character beyond ASCII as \<^verbatim>\<open>\uXXXX\<close> escapes, a supplementary character
  as a surrogate pair, and the decoder joins a surrogate pair of escapes into one character;
  so the strings must then consist of Unicode scalar values (no surrogate code points).
  Without \<^verbatim>\<open>ensure_ascii\<close> any string qualifies. The keys of a dictionary are distinct.
  Floats are left out: their arithmetic and \<^verbatim>\<open>repr\<close> are not modelled.
\<close>

definition scalar_value :: "nat \<Rightarrow> bool" where
  "scalar_value c = (c < 0x110000 \<and> \<not> (0xD800 \<le> c \<and> c \<le> 0xDFFF))"

definition text_ok :: "bool \<Rightarrow> pystr \<Rightarrow> bool" where
  "text_ok ensure_ascii s = (ensure_ascii \<longrightarrow> list_all scalar_value s)"

fun representable :: "bool \<Rightarrow> json \<Rightarrow> bool"
  and representable_items :: "bool \<Rightarrow> json list \<Rightarrow> bool"
  and representable_pairs :: "bool \<Rightarrow> (pystr \<times> json) list \<Rightarrow> bool"
where
  "representable ea JNull = True"
| "representable ea (JBool b) = True"
| "representable ea (JInt i) = True"
| "representable ea (JFloat lit) = False"
| "representable ea (JString s) = text_ok ea s"
| "representable ea (JArray vs) = representable_items ea vs"
| "representable ea (JObject ps) = (distinct (map fst ps) \<and> representable_pairs ea ps)"
| "representable_items ea [] = True"
| "representable_items ea (v # vs) = (representable ea v \<and> representable_items ea vs)"
| "representable_pairs ea [] = True"
| "representable_pairs ea ((k, v) # ps) =
     (text_ok ea k \<and> representable ea v \<and> representable_pairs ea ps)"

text \<open>What can follow a value inside the encoder's output: nothing, a comma or a closing
  bracket.\<close>

definition ends_value :: "pystr \<Rightarrow> bool" where
  "ends_value rest = (case rest of [] \<Rightarrow> True | c # _ \<Rightarrow> c = 44 \<or> c = 93 \<or> c = 125)"

section \<open>\<^verbatim>\<open>prompts.py\<close>\<close>

definition COMPANY_FINDER_INSTRUCTIONS :: "pystr list" where
  "COMPANY_FINDER_INSTRUCTIONS =
     [py ''You are CompanyFinderAgent. Use ExaTools to search the web for companies that match the targeting criteria.'',
      py ''Return ONLY valid JSON with key 'companies' as a list; respect the requested limit provided in the user prompt.'',
      py ''Each item must have: name, website, why_fit (1-2 lines).'']"

definition CONTACT_FINDER_INSTRUCTIONS :: "pystr list" where
  "CONTACT_FINDER_INSTRUCTIONS =
     [py ''You are ContactFinderAgent. Use ExaTools to find 1-2 relevant decision makers per company and their emails if available.'',
      py ''Prioritize roles from Founder's Office, GTM (Marketing/Growth), Sales leadership, Partnerships/Business Development, and Product Marketing.'',
      py ''Search queries can include patterns like '<Company> email format', 'contact', 'team', 'leadership', and role titles.'',
      py ''If direct emails are not found, infer likely email using common formats (e.g., first.last@domain), but mark inferred=true.'',
      py ''Return ONLY valid JSON with key 'companies' as a list; each has: name, contacts: [{full_name, title, email, inferred}]'']"

definition RESEARCH_AGENT_INSTRUCTIONS :: "pystr list" where
  "RESEARCH_AGENT_INSTRUCTIONS =
     [py ''You are ResearchAgent. For each company, collect concise, valuable insights from:'',
      py ''1) Their official website (about, blog, product pages)'',
      py ''2) Reddit discussions (site:reddit.com mentions)'',
      py ''Summarize 2-4 interesting, non-generic points per company that a human would bring up in an email to show genuine effort.'',
      py ''Return ONLY valid JSON with key 'companies' as a list; each has: name, insights: [strings].'']"

text \<open>The dictionary \<^verbatim>\<open>EMAIL_STYLES\<close>, in its source order.\<close>

definition EMAIL_STYLES :: "(pystr \<times> pystr) list" where
  "EMAIL_STYLES =
     [(py ''Professional'',
       py ''Style: Professional. Clear, respectful, and businesslike. Short paragraphs; no slang.''),
      (py ''Casual'',
       py ''Style: Casual. Friendly, approachable, first-name basis. No slang or emojis; keep it human.''),
      (py ''Cold'',
       py ''Style: Cold email. Strong hook in opening 2 lines, tight value proposition, minimal fluff, strong CTA.''),
      (py ''Consultative'',
       py ''Style: Consultative. Insight-led, frames observed problems and tailored solution hypotheses; soft CTA.'')]"

text \<open>\<^verbatim>\<open>d.get(key, dflt)\<close> on a dictionary.\<close>

definition dict_get :: "(pystr \<times> 'v) list \<Rightarrow> pystr \<Rightarrow> 'v \<Rightarrow> 'v" where
  "dict_get d key dflt = (case map_of d key of None \<Rightarrow> dflt | Some v \<Rightarrow> v)"

text \<open>\<^verbatim>\<open>EMAIL_STYLES["Professional"]\<close> is evaluated first, as the default argument; the key is
  in the table, so the subscript does not raise.\<close>

definition get_email_writer_instructions :: "pystr \<Rightarrow> pystr list" where
  "get_email_writer_instructions style_key =
     (let style_instruction =
            dict_get EMAIL_STYLES style_key (the (map_of EMAIL_STYLES (py ''Professional'')))
      in [py ''You are EmailWriterAgent. Write concise, personalized B2B outreach emails.'',
          style_instruction,
          py ''Return ONLY valid JSON with key 'emails' as a list of items: {company, contact, subject, body}.'',
          py ''Length: 120-160 words. Include 1-2 lines of strong personalization referencing research insights (company website and Reddit findings).'',
          py ''CTA: suggest a short intro call; include sender company name and calendar link if provided.''])"

text \<open>The four templates, each as the result of its \<^verbatim>\<open>.format(...)\<close> call; \<^verbatim>\<open>{{\<close> and \<^verbatim>\<open>}}\<close>
  of a template are single braces in the result.\<close>

definition company_finder_prompt :: "int \<Rightarrow> pystr \<Rightarrow> pystr \<Rightarrow> pystr" where
  "company_finder_prompt max_companies target_desc offering_desc =
     py ''Find exactly '' @ str_int max_companies
       @ py '' companies that are a strong B2B fit given the user inputs.'' @ [10]
       @ py ''Targeting: '' @ target_desc @ [10]
       @ py ''Offering: '' @ offering_desc @ [10]
       @ py ''For each, provide: name, website, why_fit (1-2 lines).''"

definition contact_finder_prompt :: "pystr \<Rightarrow> pystr \<Rightarrow> pystr \<Rightarrow> pystr" where
  "contact_finder_prompt target_desc offering_desc companies_json =
     py ''For each company below, find 2-3 relevant decision makers and emails (if available). Ensure at least 2 per company when possible, and cap at 3.'' @ [10]
       @ py ''If not available, infer likely email and mark inferred=true.'' @ [10]
       @ py ''Targeting: '' @ target_desc @ [10] @ py ''Offering: '' @ offering_desc @ [10]
       @ py ''Companies JSON: '' @ companies_json @ [10]
       @ py ''Return JSON: {companies: [{name, contacts: [{full_name, title, email, inferred}]}]}''"

definition research_prompt :: "pystr \<Rightarrow> pystr" where
  "research_prompt companies_json =
     py ''For each company, gather 2-4 interesting insights from their website and Reddit that would help personalize outreach.'' @ [10]
       @ py ''Companies JSON: '' @ companies_json @ [10]
       @ py ''Return JSON: {companies: [{name, insights: [string, ...]}]}''"

definition email_writer_prompt ::
  "pystr \<Rightarrow> pystr \<Rightarrow> pystr \<Rightarrow> pystr \<Rightarrow> pystr \<Rightarrow> pystr \<Rightarrow> pystr" where
  "email_writer_prompt sender_name sender_company offering_desc calendar_link contacts_json
       research_json =
     py ''Write personalized outreach emails for the following contacts.'' @ [10]
       @ py ''Sender: '' @ sender_name @ py '' at '' @ sender_company @ py ''.'' @ [10]
       @ py ''Offering: '' @ offering_desc @ py ''.'' @ [10]
       @ py ''Calendar link: '' @ calendar_link @ py ''.'' @ [10]
       @ py ''Contacts JSON: '' @ contacts_json @ [10]
       @ py ''Research JSON: '' @ research_json @ [10]
       @ py ''Return JSON with key 'emails' as a list of {company, contact, subject, body}.''"

section \<open>\<^verbatim>\<open>ai_email_gtm_outreach_agent.py\<close>\<close>

subsection \<open>Operations of the interpreter on decoded values\<close>

definition quoted :: "pystr \<Rightarrow> pystr" where
  "quoted s = [39] @ s @ [39]"

fun type_name :: "json \<Rightarrow> pystr" where
  "type_name JNull = py ''NoneType''"
| "type_name (JBool b) = py ''bool''"
| "type_name (JInt i) = py ''int''"
| "type_name (JFloat lit) = py ''float''"
| "type_name (JString s) = py ''str''"
| "type_name (JArray vs) = py ''list''"
| "type_name (JObject d) = py ''dict''"

text \<open>\<^verbatim>\<open>data.get(key, dflt)\<close>: only a \<^verbatim>\<open>dict\<close> has the method.\<close>

fun py_get :: "json \<Rightarrow> pystr \<Rightarrow> json \<Rightarrow> error + json" where
  "py_get (JObject d) key dflt = Inr (dict_get d key dflt)"
| "py_get v key dflt =
     Inl (AttributeError (quoted (type_name v) @ py '' object has no attribute '' @ quoted (py ''get'')))"

text \<open>\<^verbatim>\<open>v[:k]\<close>: lists and strings can be sliced; a \<^verbatim>\<open>dict\<close> rejects the slice as a key.\<close>

fun py_slice_to :: "json \<Rightarrow> int \<Rightarrow> error + json" where
  "py_slice_to (JArray vs) k = Inr (JArray (py_slice vs 0 k))"
| "py_slice_to (JString s) k = Inr (JString (py_slice s 0 k))"
| "py_slice_to (JObject d) k = Inl (TypeError (py ''unhashable type: '' @ quoted (py ''slice'')))"
| "py_slice_to v k = Inl (TypeError (quoted (type_name v) @ py '' object is not subscriptable''))"

text \<open>\<^verbatim>\<open>len(v)\<close>.\<close>

fun py_len :: "json \<Rightarrow> error + nat" where
  "py_len (JArray vs) = Inr (length vs)"
| "py_len (JString s) = Inr (length s)"
| "py_len (JObject d) = Inr (length d)"
| "py_len v = Inl (TypeError (py ''object of type '' @ quoted (type_name v) @ py '' has no len()''))"

text \<open>\<^verbatim>\<open>s.strip()\<close> removes the characters for which \<^verbatim>\<open>str.isspace\<close> holds from both ends.\<close>

definition is_space :: "nat \<Rightarrow> bool" where
  "is_space c =
     ((9 \<le> c \<and> c \<le> 13) \<or> (28 \<le> c \<and> c \<le> 32) \<or> c = 0x85 \<or> c = 0xA0 \<or> c = 0x1680
      \<or> (0x2000 \<le> c \<and> c \<le> 0x200A) \<or> c = 0x2028 \<or> c = 0x2029 \<or> c = 0x202F \<or> c = 0x205F
      \<or> c = 0x3000)"

definition py_strip :: "pystr \<Rightarrow> pystr" where
  "py_strip s = rev (dropWhile is_space (rev (dropWhile is_space s)))"

subsection \<open>\<^verbatim>\<open>extract_json_or_raise\<close>\<close>

definition and_then :: "error + 'a \<Rightarrow> ('a \<Rightarrow> error + 'b) \<Rightarrow> error + 'b" where
  "and_then r f = (case r of Inl e \<Rightarrow> Inl e | Inr x \<Rightarrow> f x)"

text \<open>
  \<^verbatim>\<open>
  try:
      return json.loads(text)
  except Exception as e:
      start = text.find("{")
      end = text.rfind("}")
      if start != -1 and end != -1 and end > start:
          candidate = text[start : end + 1]
          return json.loads(candidate)
      raise ValueError(f"Failed to parse JSON: {e}\nResponse was:\n{text}")
  \<close>
  The second \<^verbatim>\<open>json.loads\<close> runs inside the handler, outside any \<^verbatim>\<open>try\<close>: what it raises
  leaves the function as it is.
\<close>

definition extract_json_or_raise :: "pystr \<Rightarrow> error + json" where
  "extract_json_or_raise text =
     (case json_loads text of
        Inr v \<Rightarrow> Inr v
      | Inl e \<Rightarrow>
          (let start = py_find text 123;
               end = py_rfind text 125
           in if start \<noteq> - 1 \<and> end \<noteq> - 1 \<and> end > start then
                (let candidate = py_slice text start (end + 1) in json_loads candidate)
              else
                Inl (ValueError (py ''Failed to parse JSON: '' @ str_error e @ [10]
                       @ py ''Response was:'' @ [10] @ text))))"

subsection \<open>Agents and the gateway\<close>

text \<open>
  An agent is the configuration its \<^verbatim>\<open>create_..._agent\<close> function builds. All four share the
  database file, user memories and a history of six runs; they differ in model, tools,
  session, debug flag and instructions.
\<close>

datatype tool = ExaTools "pystr option"

record agent =
  model_id :: pystr
  tools :: "tool list"
  session_id :: pystr
  debug_mode :: bool
  instructions :: "pystr list"

definition create_company_finder_agent :: agent where
  "create_company_finder_agent =
     \<lparr>model_id = py ''gpt-4o'', tools = [ExaTools (Some (py ''company''))],
      session_id = py ''gtm_outreach_company_finder'', debug_mode = True,
      instructions = COMPANY_FINDER_INSTRUCTIONS\<rparr>"

definition create_contact_finder_agent :: agent where
  "create_contact_finder_agent =
     \<lparr>model_id = py ''gpt-4o'', tools = [ExaTools None],
      session_id = py ''gtm_outreach_contact_finder'', debug_mode = True,
      instructions = CONTACT_FINDER_INSTRUCTIONS\<rparr>"

definition create_email_writer_agent :: "pystr \<Rightarrow> agent" where
  "create_email_writer_agent style_key =
     \<lparr>model_id = py ''gpt-5'', tools = [],
      session_id = py ''gtm_outreach_email_writer'', debug_mode = False,
      instructions = get_email_writer_instructions style_key\<rparr>"

definition create_research_agent :: agent where
  "create_research_agent =
     \<lparr>model_id = py ''gpt-5'', tools = [ExaTools None],
      session_id = py ''gtm_outreach_researcher'', debug_mode = True,
      instructions = RESEARCH_AGENT_INSTRUCTIONS\<rparr>"

text \<open>
  \<^verbatim>\<open>agent.run(prompt)\<close> is the external service. Its answer may depend on everything sent
  before (the agents keep history), so the gateway is a function of the calls made so far,
  the agent and the prompt; it yields \<^verbatim>\<open>str(resp.content)\<close>, or the exception the call raises.
  Every call is appended to the log, which is how the theorems below tell whether a stage
  reached the gateway.
\<close>

type_synonym call = "agent \<times> pystr"

type_synonym gateway = "call list \<Rightarrow> agent \<Rightarrow> pystr \<Rightarrow> error + pystr"

type_synonym 'a run = "call list \<Rightarrow> (error + 'a) \<times> call list"

definition ret :: "'a \<Rightarrow> 'a run" where
  "ret x log = (Inr x, log)"

definition lift :: "error + 'a \<Rightarrow> 'a run" where
  "lift r log = (r, log)"

definition then_run :: "'a run \<Rightarrow> ('a \<Rightarrow> 'b run) \<Rightarrow> 'b run" where
  "then_run m f log =
     (case m log of
        (Inl e, log') \<Rightarrow> (Inl e, log')
      | (Inr x, log') \<Rightarrow> f x log')"

definition agent_run :: "gateway \<Rightarrow> agent \<Rightarrow> pystr \<Rightarrow> pystr run" where
  "agent_run gw agent prompt log = (gw log agent prompt, log @ [(agent, prompt)])"

subsection \<open>The stage runners\<close>

definition run_company_finder ::
  "gateway \<Rightarrow> agent \<Rightarrow> pystr \<Rightarrow> pystr \<Rightarrow> int \<Rightarrow> json run" where
  "run_company_finder gw agent target_desc offering_desc max_companies =
     then_run (agent_run gw agent (company_finder_prompt max_companies target_desc offering_desc))
       (\<lambda>content. lift
          (and_then (extract_json_or_raise content) (\<lambda>data.
           and_then (py_get data (py ''companies'') (JArray [])) (\<lambda>companies.
           py_slice_to companies (max 1 (min max_companies 10))))))"

definition run_contact_finder ::
  "gateway \<Rightarrow> agent \<Rightarrow> json \<Rightarrow> pystr \<Rightarrow> pystr \<Rightarrow> json run" where
  "run_contact_finder gw agent companies target_desc offering_desc =
     then_run (agent_run gw agent
                 (contact_finder_prompt target_desc offering_desc (json_dumps False companies)))
       (\<lambda>content. lift
          (and_then (extract_json_or_raise content) (\<lambda>data.
           py_get data (py ''companies'') (JArray []))))"

definition run_research :: "gateway \<Rightarrow> agent \<Rightarrow> json \<Rightarrow> json run" where
  "run_research gw agent companies =
     then_run (agent_run gw agent (research_prompt (json_dumps False companies)))
       (\<lambda>content. lift
          (and_then (extract_json_or_raise content) (\<lambda>data.
           py_get data (py ''companies'') (JArray []))))"

text \<open>\<^verbatim>\<open>calendar_link or 'N/A'\<close>: \<^verbatim>\<open>None\<close> and the empty string both give \<^verbatim>\<open>'N/A'\<close>.\<close>

definition run_email_writer ::
  "gateway \<Rightarrow> agent \<Rightarrow> json \<Rightarrow> json \<Rightarrow> pystr \<Rightarrow> pystr \<Rightarrow> pystr \<Rightarrow> pystr option \<Rightarrow> json run" where
  "run_email_writer gw agent contacts_data research_data offering_desc sender_name sender_company
       calendar_link =
     then_run (agent_run gw agent
                 (email_writer_prompt sender_name sender_company offering_desc
                    (case calendar_link of None \<Rightarrow> py ''N/A''
                     | Some l \<Rightarrow> if l = [] then py ''N/A'' else l)
                    (json_dumps False contacts_data) (json_dumps False research_data)))
       (\<lambda>content. lift
          (and_then (extract_json_or_raise content) (\<lambda>data.
           py_get data (py ''emails'') (JArray []))))"

subsection \<open>The handler of the start button in \<^verbatim>\<open>main\<close>\<close>

text \<open>
  The form's values, the result bundle stored under \<^verbatim>\<open>st.session_state["gtm_results"]\<close>, and
  the state that outlives a run: that entry and the gateway's call log.
\<close>

record inputs =
  in_openai_key :: pystr
  in_exa_key :: pystr
  in_target_desc :: pystr
  in_offering_desc :: pystr
  in_sender_name :: pystr
  in_sender_company :: pystr
  in_calendar_link :: pystr
  in_num_companies :: int
  in_email_style :: pystr

record results =
  res_companies :: json
  res_contacts :: json
  res_research :: json
  res_emails :: json

record app_state =
  gtm_results :: "results option"
  agent_calls :: "call list"

text \<open>
  What the handler reports: a validation message (\<open>Rejected\<close>), \<^verbatim>\<open>"Pipeline failed"\<close> with the
  text of the exception (\<open>Failed\<close>), or \<^verbatim>\<open>"Completed"\<close>.
\<close>

datatype outcome =
    Rejected pystr
  | Failed pystr
  | Completed

text \<open>\<^verbatim>\<open>x or dflt\<close> on strings.\<close>

definition str_or :: "pystr \<Rightarrow> pystr \<Rightarrow> pystr" where
  "str_or x dflt = (if x = [] then dflt else x)"

text \<open>
  The body of the \<^verbatim>\<open>try\<close> block. Building the four agents is configuration and is taken
  to succeed. Each \<^verbatim>\<open>details.write(f"... {len(x)} ...")\<close> evaluates
  \<^verbatim>\<open>len(x)\<close>, which raises for a value without a length, before the following
  \<^verbatim>\<open>... if x else []\<close> tests \<open>x\<close>; for a value with a length that test is \<open>0 < len(x)\<close>.
\<close>

definition pipeline :: "gateway \<Rightarrow> inputs \<Rightarrow> results run" where
  "pipeline gw inp =
     (let company_agent = create_company_finder_agent;
          contact_agent = create_contact_finder_agent;
          research_agent = create_research_agent;
          email_agent = create_email_writer_agent (in_email_style inp)
      in
      then_run (run_company_finder gw company_agent (py_strip (in_target_desc inp))
                  (py_strip (in_offering_desc inp)) (in_num_companies inp)) (\<lambda>companies.
      then_run (lift (py_len companies)) (\<lambda>len_companies.
      then_run (if 0 < len_companies
                then run_contact_finder gw contact_agent companies (py_strip (in_target_desc inp))
                       (py_strip (in_offering_desc inp))
                else ret (JArray [])) (\<lambda>contacts_data.
      then_run (lift (py_len contacts_data)) (\<lambda>len_contacts.
      then_run (if 0 < len_companies then run_research gw research_agent companies
                else ret (JArray [])) (\<lambda>research_data.
      then_run (lift (py_len research_data)) (\<lambda>len_research.
      then_run (if 0 < len_contacts
                then run_email_writer gw email_agent contacts_data research_data
                       (py_strip (in_offering_desc inp))
                       (str_or (py_strip (in_sender_name inp)) (py ''Sales Team''))
                       (str_or (py_strip (in_sender_company inp)) (py ''Our Company''))
                       (if py_strip (in_calendar_link inp) = [] then None
                        else Some (py_strip (in_calendar_link inp)))
                else ret (JArray [])) (\<lambda>emails.
      then_run (lift (py_len emails)) (\<lambda>len_emails.
      ret \<lparr>res_companies = companies, res_contacts = contacts_data,
           res_research = research_data, res_emails = emails\<rparr>)))))))))"

text \<open>
  \<^verbatim>\<open>if st.button("Start Outreach")\<close>: validation, then the \<^verbatim>\<open>try\<close> block; the assignment to
  \<^verbatim>\<open>st.session_state["gtm_results"]\<close> is the last statement but one of that block, and
  \<^verbatim>\<open>except Exception as e\<close> reports \<^verbatim>\<open>f"{e}"\<close>.
\<close>

definition start_outreach :: "gateway \<Rightarrow> inputs \<Rightarrow> app_state \<Rightarrow> outcome \<times> app_state" where
  "start_outreach gw inp st =
     (if in_openai_key inp = [] \<or> in_exa_key inp = [] then
        (Rejected (py ''Please provide API keys in the sidebar''), st)
      else if in_target_desc inp = [] \<or> in_offering_desc inp = [] then
        (Rejected (py ''Please fill in target companies and offering''), st)
      else
        (case pipeline gw inp (agent_calls st) of
           (Inr res, log') \<Rightarrow> (Completed, st\<lparr>gtm_results := Some res, agent_calls := log'\<rparr>)
         | (Inl e, log') \<Rightarrow> (Failed (str_error e), st\<lparr>agent_calls := log'\<rparr>)))"

section \<open>The decoder always consumes input\<close>

lemma match_frac_shorter: "match_frac s = (f, r) \<Longrightarrow> length r \<le> length s"
proof -
  have *: "length (dropWhile is_digit t) \<le> Suc (Suc (length t))" for t
    using length_dropWhile_le [of is_digit t] by simp
  show "match_frac s = (f, r) \<Longrightarrow> length r \<le> length s"
    by (auto simp: match_frac_def * split: list.splits if_splits)
qed

lemma match_exp_shorter: "match_exp s = (x, r) \<Longrightarrow> length r \<le> length s"
proof (cases s)
  case Nil
  then show "match_exp s = (x, r) \<Longrightarrow> length r \<le> length s" by (auto simp add: match_exp_def)
next
  case (Cons e t)
  have "length (dropWhile is_digit (drop k t)) \<le> Suc (length t)"
       "length (dropWhile is_digit t) \<le> Suc (length t)" for k
    using length_dropWhile_le [of is_digit "drop k t"] length_dropWhile_le [of is_digit t]
    by simp_all
  with Cons show "match_exp s = (x, r) \<Longrightarrow> length r \<le> length s"
    by (auto simp: match_exp_def Let_def split: if_splits)
qed

lemma match_int_shorter: "match_int s = Some (ip, r) \<Longrightarrow> length r < length s"
proof -
  have *: "length (dropWhile is_digit t) < Suc (length t)"
          "length (dropWhile is_digit t) < Suc (Suc (length t))" for t
    using length_dropWhile_le [of is_digit t] by simp_all
  show "match_int s = Some (ip, r) \<Longrightarrow> length r < length s"
    by (cases s; cases "tl s")
       (auto simp: match_int_def Let_def next_is_def * split: if_splits list.splits)
qed

lemma match_number_shorter: "match_number s = Inr (v, r) \<Longrightarrow> length r < length s"
  by (auto simp: match_number_def Let_def split: option.splits prod.splits if_splits
      dest!: match_int_shorter match_frac_shorter match_exp_shorter)

lemma scan_once_shorter:
  "scan_once s = Inr (v, r) \<Longrightarrow> length r < length s"
  "parse_array s = Inr (vs, r) \<Longrightarrow> length r < length s"
  "parse_object s = Inr (ps, r) \<Longrightarrow> length r < length s"
proof (induction s and s and s arbitrary: v r and vs r and ps r
       rule: scan_once_parse_array_parse_object.induct)
  case (1 s)
  show ?case
  proof (cases s)
    case Nil
    with "1.prems" show ?thesis by (simp add: scan_once.simps)
  next
    case (Cons c t)
    have ws: "length (skip_ws t) \<le> length t" by (rule length_skip_ws)
    have tlws: "length (tl (skip_ws t)) \<le> length t" using ws by simp
    show ?thesis
      using "1.prems" "1.IH"(1) [OF Cons, of "skip_ws t"] "1.IH"(2) [OF Cons, of "skip_ws t"] ws tlws
      unfolding Cons scan_once.simps [of "c # t"]
      by (auto simp: Let_def starts_with_def py_def
          split: if_splits sum.splits prod.splits
          dest!: scanstring_shorter match_number_shorter)
  qed
next
  case (2 s)
  have a: "length (skip_ws (tl (skip_ws r))) \<le> length r" for r
    using length_tl_skip_ws [of "skip_ws r"] length_skip_ws [of r] by simp
  have b: "length (tl (skip_ws r)) \<le> length r" for r
    using length_skip_ws [of r] by simp
  from "2.prems" obtain v r0 where so: "scan_once s = Inr (v, r0)" and g: "length r0 < length s"
    and rest: "(if next_is 93 (skip_ws r0) then Inr ([v], tl (skip_ws r0))
                else if next_is 44 (skip_ws r0) then
                  (case parse_array (skip_ws (tl (skip_ws r0))) of
                     Inl e \<Rightarrow> Inl e | Inr (vs, r'') \<Rightarrow> Inr (v # vs, r''))
                else Inl (DecodeError msg_comma (length (skip_ws r0)))) = Inr (vs, r)"
    unfolding parse_array.simps [of s]
    by (auto simp: Let_def split: sum.splits prod.splits if_splits)
  show ?case
  proof (cases "next_is 93 (skip_ws r0)")
    case True
    with rest have "r = tl (skip_ws r0)" by simp
    then show ?thesis using g b [of r0] by simp
  next
    case False
    with rest have c: "next_is 44 (skip_ws r0)"
      by (auto split: if_splits)
    with rest False obtain vs' where pa: "parse_array (skip_ws (tl (skip_ws r0))) = Inr (vs', r)"
      by (auto split: sum.splits)
    from "2.IH"(2) [OF so refl g refl False c pa]
    have "length r < length (skip_ws (tl (skip_ws r0)))" .
    then show ?thesis using a [of r0] g by simp
  qed
next
  case (3 s)
  have a: "length (skip_ws (tl (skip_ws r))) \<le> length r" for r
    using length_tl_skip_ws [of "skip_ws r"] length_skip_ws [of r] by simp
  have b: "length (tl (skip_ws r)) \<le> length r" for r
    using length_skip_ws [of r] by simp
  from "3.prems" have q: "next_is 34 s"
    unfolding parse_object.simps [of s] by (auto split: if_splits)
  with "3.prems" obtain key r0 where ss: "scanstring (length s) (tl s) = Inr (key, r0)"
    and colon: "next_is 58 (skip_ws r0)"
    and rest0: "(case scan_once (skip_ws (tl (skip_ws r0))) of
                   Inl e \<Rightarrow> Inl e
                 | Inr (v, r3) \<Rightarrow>
                     if length r3 < length (skip_ws (tl (skip_ws r0))) then
                       (let r4 = skip_ws r3 in
                        if next_is 125 r4 then Inr ([(key, v)], tl r4)
                        else if next_is 44 r4 then
                          (case parse_object (skip_ws (tl r4)) of
                             Inl e \<Rightarrow> Inl e
                           | Inr (ps, r5) \<Rightarrow> Inr ((key, v) # ps, r5))
                        else Inl (DecodeError msg_comma (length r4)))
                     else Inl (StopIteration (length (skip_ws (tl (skip_ws r0)))))) = Inr (ps, r)"
    unfolding parse_object.simps [of s]
    by (auto simp: Let_def split: sum.splits prod.splits if_splits)
  from rest0 obtain v r3 where so: "scan_once (skip_ws (tl (skip_ws r0))) = Inr (v, r3)"
    and g: "length r3 < length (skip_ws (tl (skip_ws r0)))"
    and rest: "(if next_is 125 (skip_ws r3) then Inr ([(key, v)], tl (skip_ws r3))
                else if next_is 44 (skip_ws r3) then
                  (case parse_object (skip_ws (tl (skip_ws r3))) of
                     Inl e \<Rightarrow> Inl e | Inr (ps, r5) \<Rightarrow> Inr ((key, v) # ps, r5))
                else Inl (DecodeError msg_comma (length (skip_ws r3)))) = Inr (ps, r)"
    by (auto simp: Let_def split: sum.splits prod.splits if_splits)
  have r0s: "length r0 < length s"
    using scanstring_shorter [OF ss] by (cases s) auto
  have r3s: "length r3 < length s"
    using g a [of r0] r0s by simp
  show ?case
  proof (cases "next_is 125 (skip_ws r3)")
    case True
    with rest have "r = tl (skip_ws r3)" by simp
    then show ?thesis using r3s b [of r3] by simp
  next
    case False
    with rest have c: "next_is 44 (skip_ws r3)"
      by (auto split: if_splits)
    with rest False obtain ps' where po: "parse_object (skip_ws (tl (skip_ws r3))) = Inr (ps', r)"
      by (auto split: sum.splits)
    have nq: "\<not> \<not> next_is 34 s" using q by simp
    have nc: "\<not> \<not> next_is 58 (skip_ws r0)" using colon by simp
    from "3.IH"(2) [OF nq ss refl refl nc refl so refl g refl False c po]
    have "length r < length (skip_ws (tl (skip_ws r3)))" .
    then show ?thesis using a [of r3] r3s by simp
  qed
qed

text \<open>So the progress checks in \<open>parse_array\<close> and \<open>parse_object\<close> never fail, and the two
  functions satisfy the equations without them.\<close>

lemma parse_array_eq:
  "parse_array s =
     (case scan_once s of
        Inl e \<Rightarrow> Inl e
      | Inr (v, r) \<Rightarrow>
          (let r' = skip_ws r in
           if next_is 93 r' then Inr ([v], tl r')
           else if next_is 44 r' then
             (case parse_array (skip_ws (tl r')) of
                Inl e \<Rightarrow> Inl e
              | Inr (vs, r'') \<Rightarrow> Inr (v # vs, r''))
           else Inl (DecodeError msg_comma (length r'))))"
  unfolding parse_array.simps [of s]
  by (auto split: sum.splits dest: scan_once_shorter(1))

lemma parse_object_eq:
  "parse_object s =
     (if \<not> next_is 34 s then Inl (DecodeError msg_property_name (length s))
      else
        (case scanstring (length s) (tl s) of
           Inl e \<Rightarrow> Inl e
         | Inr (key, r) \<Rightarrow>
             (let r1 = skip_ws r in
              if \<not> next_is 58 r1 then Inl (DecodeError msg_colon (length r1))
              else
                (let r2 = skip_ws (tl r1) in
                 case scan_once r2 of
                   Inl e \<Rightarrow> Inl e
                 | Inr (v, r3) \<Rightarrow>
                     (let r4 = skip_ws r3 in
                      if next_is 125 r4 then Inr ([(key, v)], tl r4)
                      else if next_is 44 r4 then
                        (case parse_object (skip_ws (tl r4)) of
                           Inl e \<Rightarrow> Inl e
                         | Inr (ps, r5) \<Rightarrow> Inr ((key, v) # ps, r5))
                      else Inl (DecodeError msg_comma (length r4)))))))"
  unfolding parse_object.simps [of s]
  by (auto simp: Let_def split: sum.splits dest: scan_once_shorter(1))

section \<open>Evaluating the model on concrete texts\<close>

lemmas decoder_eval =
  json_loads_def scan_once.simps parse_object.simps parse_array.simps
  py_def skip_ws_def next_is_def starts_with_def is_ws_def is_digit_def match_number_def
  match_int_def match_frac_def match_exp_def int_of_literal_def digits_value_def
  dict_of_pairs_def push_def backslash_def hex4_def hex_digit_def
  msg_property_name_def msg_colon_def msg_comma_def msg_unterminated_def msg_control_def
  msg_escape_def msg_uXXXX_def msg_bom_def Let_def

lemmas extract_eval =
  extract_json_or_raise_def py_find_def py_rfind_def py_slice_def decoder_eval

section \<open>\<^verbatim>\<open>get_email_writer_instructions\<close>: the style table\<close>

text \<open>
  C9. For every style key, the style instruction that \<open>get_email_writer_instructions\<close> puts
  into its list (the second entry) is the table's entry for that key when the key is one of
  Professional, Casual, Cold and Consultative, and the table's entry for Professional for
  any other key. The table holds each key once, so "the entry" is unique.
\<close>

theorem style_instruction_selected:
  "(style_key \<in> {py ''Professional'', py ''Casual'', py ''Cold'', py ''Consultative''}
      \<longrightarrow> (style_key, get_email_writer_instructions style_key ! 1) \<in> set EMAIL_STYLES)
   \<and> (style_key \<notin> {py ''Professional'', py ''Casual'', py ''Cold'', py ''Consultative''}
      \<longrightarrow> (py ''Professional'', get_email_writer_instructions style_key ! 1) \<in> set EMAIL_STYLES)
   \<and> distinct (map fst EMAIL_STYLES)"
  by (simp add: get_email_writer_instructions_def EMAIL_STYLES_def dict_get_def py_def)

theorem style_instruction_selected_witness:
  "py ''Cold'' \<in> {py ''Professional'', py ''Casual'', py ''Cold'', py ''Consultative''}
   \<and> get_email_writer_instructions (py ''Cold'') ! 1
       = py ''Style: Cold email. Strong hook in opening 2 lines, tight value proposition, minimal fluff, strong CTA.''
   \<and> py ''Formal'' \<notin> {py ''Professional'', py ''Casual'', py ''Cold'', py ''Consultative''}
   \<and> get_email_writer_instructions (py ''Formal'') ! 1
       = py ''Style: Professional. Clear, respectful, and businesslike. Short paragraphs; no slang.''"
  using style_instruction_selected [of "py ''Cold''"] style_instruction_selected [of "py ''Formal''"]
  by (simp add: EMAIL_STYLES_def py_def)

section \<open>\<^verbatim>\<open>extract_json_or_raise\<close>\<close>

subsection \<open>\<^verbatim>\<open>find\<close>, \<^verbatim>\<open>rfind\<close> and the slice between them\<close>

lemma find_from_absent: "ch \<notin> set cs \<Longrightarrow> find_from ch i cs = - 1"
  by (induction cs arbitrary: i) auto

lemma find_from_first:
  "ch \<notin> set pre \<Longrightarrow> find_from ch i (pre @ ch # rest) = int (i + length pre)"
  by (induction pre arbitrary: i) auto

lemma py_find_first: "ch \<notin> set pre \<Longrightarrow> py_find (pre @ ch # rest) ch = int (length pre)"
  by (simp add: py_find_def find_from_first)

lemma py_rfind_last:
  assumes "ch \<notin> set post"
  shows "py_rfind (front @ ch # post) ch = int (length front)"
proof -
  have "find_from ch 0 (rev post @ ch # rev front) = int (length post)"
    using assms find_from_first [of ch "rev post" 0 "rev front"] by simp
  then show ?thesis by (simp add: py_rfind_def)
qed

lemma py_slice_middle:
  "py_slice (pre @ mid @ post) (int (length pre)) (int (length pre + length mid)) = mid"
  by (simp add: py_slice_def Let_def min_def)

subsection \<open>Text that is valid JSON\<close>

text \<open>
  C10. Whenever the strict parse of the whole text succeeds, \<open>extract_json_or_raise\<close> returns
  the parsed value as it is, whatever its kind: no test that it is an object stands between
  \<^verbatim>\<open>json.loads\<close> and the \<^verbatim>\<open>return\<close>. The witness shows an array and a string coming back.
\<close>

theorem extract_returns_strict_parse:
  "json_loads text = Inr v \<Longrightarrow> extract_json_or_raise text = Inr v"
  by (simp add: extract_json_or_raise_def)

theorem extract_returns_strict_parse_witness:
  "json_loads (py ''[1, 2]'') = Inr (JArray [JInt 1, JInt 2])
   \<and> extract_json_or_raise (py ''[1, 2]'') = Inr (JArray [JInt 1, JInt 2])
   \<and> json_loads (py ''\"hi\"'') = Inr (JString (py ''hi''))
   \<and> extract_json_or_raise (py ''\"hi\"'') = Inr (JString (py ''hi''))"
proof -
  have a: "json_loads (py ''[1, 2]'') = Inr (JArray [JInt 1, JInt 2])"
    by (simp add: decoder_eval)
  have b: "json_loads (py ''\"hi\"'') = Inr (JString (py ''hi''))"
    by (simp add: decoder_eval scanstring.simps)
  show ?thesis
    using extract_returns_strict_parse [OF a] extract_returns_strict_parse [OF b] a b by simp
qed

subsection \<open>JSON wrapped in prose\<close>

text \<open>
  C7. When the strict parse of the whole text fails and the text has a \<^verbatim>\<open>{\<close> before a \<^verbatim>\<open>}\<close>,
  the function parses the substring from the first \<^verbatim>\<open>{\<close> to the last \<^verbatim>\<open>}\<close>, both included:
  with \<open>pre\<close> free of \<^verbatim>\<open>{\<close> and \<open>post\<close> free of \<^verbatim>\<open>}\<close>, the result for
  \<open>pre @ "{" @ mid @ "}" @ post\<close> is the parse of \<open>"{" @ mid @ "}"\<close>. The witness is the reply
  \<^verbatim>\<open>here you go: {"companies": []} thanks\<close>, which yields the object \<^verbatim>\<open>{"companies": []}\<close>.
\<close>

theorem extract_recovers_braced_substring:
  assumes "json_loads text = Inl e"
    and "text = pre @ [123] @ mid @ [125] @ post"
    and "123 \<notin> set pre" and "125 \<notin> set post"
  shows "extract_json_or_raise text = json_loads ([123] @ mid @ [125])"
proof -
  have f: "py_find text 123 = int (length pre)"
    using assms(2,3) py_find_first [of 123 pre "mid @ [125] @ post"] by simp
  have r: "py_rfind text 125 = int (length pre + 1 + length mid)"
    using assms(2,4) py_rfind_last [of 125 post "pre @ [123] @ mid"] by simp
  have "py_slice text (int (length pre)) (int (length pre + 1 + length mid) + 1)
          = [123] @ mid @ [125]"
    using py_slice_middle [of pre "[123] @ mid @ [125]" post] assms(2)
    by (simp add: add.commute add.left_commute)
  with f r assms(1) show ?thesis
    by (simp add: extract_json_or_raise_def Let_def)
qed

theorem extract_recovers_braced_substring_witness:
  "json_loads (py ''here you go: {\"companies\": []} thanks'')
     = Inl (JSONDecodeError (py ''Expecting value'') (py ''here you go: {\"companies\": []} thanks'') 0)
   \<and> py ''here you go: {\"companies\": []} thanks''
       = py ''here you go: '' @ [123] @ py ''\"companies\": []'' @ [125] @ py '' thanks''
   \<and> 123 \<notin> set (py ''here you go: '') \<and> 125 \<notin> set (py '' thanks'')
   \<and> extract_json_or_raise (py ''here you go: {\"companies\": []} thanks'')
       = Inr (JObject [(py ''companies'', JArray [])])"
proof -
  have a: "json_loads (py ''here you go: {\"companies\": []} thanks'')
     = Inl (JSONDecodeError (py ''Expecting value'') (py ''here you go: {\"companies\": []} thanks'') 0)"
    by (simp add: decoder_eval)
  have b: "py ''here you go: {\"companies\": []} thanks''
       = py ''here you go: '' @ [123] @ py ''\"companies\": []'' @ [125] @ py '' thanks''"
    by (simp add: py_def)
  have c: "123 \<notin> set (py ''here you go: '')" by (simp add: py_def)
  have d: "125 \<notin> set (py '' thanks'')" by (simp add: py_def)
  have e: "json_loads ([123] @ py ''\"companies\": []'' @ [125]) = Inr (JObject [(py ''companies'', JArray [])])"
    by (simp add: decoder_eval)
  show ?thesis
    using extract_recovers_braced_substring [OF a b c d] a b c d e by simp
qed

subsection \<open>Text that cannot be parsed\<close>

text \<open>Without a \<^verbatim>\<open>{\<close> before a \<^verbatim>\<open>}\<close> the function raises its own \<^verbatim>\<open>ValueError\<close>, whose message
  ends with the text it was given.\<close>

lemma extract_without_brace_pair:
  assumes "json_loads text = Inl e"
    and "py_find text 123 = - 1 \<or> py_rfind text 125 = - 1 \<or> py_rfind text 125 \<le> py_find text 123"
  shows "extract_json_or_raise text =
           Inl (ValueError (py ''Failed to parse JSON: '' @ str_error e @ [10]
                  @ py ''Response was:'' @ [10] @ text))"
  using assms by (auto simp: extract_json_or_raise_def Let_def)

lemma py_in_suffix: "py_in sub (pre @ sub)"
  by (induction pre) (cases sub; simp)+

lemma py_in_set: "py_in sub s \<Longrightarrow> set sub \<subseteq> set s"
proof (induction s)
  case Nil
  then show ?case by simp
next
  case (Cons c s)
  from Cons.prems have "take (length sub) (c # s) = sub \<or> py_in sub s" by simp
  then show ?case
  proof
    assume "take (length sub) (c # s) = sub"
    then have "set sub = set (take (length sub) (c # s))" by simp
    also have "\<dots> \<subseteq> set (c # s)" by (rule set_take_subset)
    finally show ?thesis .
  next
    assume "py_in sub s"
    with Cons.IH show ?thesis by auto
  qed
qed

lemma extract_without_brace_pair_mentions:
  assumes "json_loads text = Inl e"
    and "py_find text 123 = - 1 \<or> py_rfind text 125 = - 1 \<or> py_rfind text 125 \<le> py_find text 123"
  shows "\<exists>m. extract_json_or_raise text = Inl (ValueError m) \<and> py_in text m"
proof -
  have "py_in text ((py ''Failed to parse JSON: '' @ str_error e @ [10]
                  @ py ''Response was:'' @ [10]) @ text)"
    by (rule py_in_suffix)
  with extract_without_brace_pair [OF assms] show ?thesis by simp
qed

text \<open>
  C1. The claim is that every failure carries the raw text, also when the substring between
  the braces fails to parse. On the reply \<^verbatim>\<open>see {oops} here\<close> the function raises what
  \<^verbatim>\<open>json.loads\<close> raised for the substring \<^verbatim>\<open>{oops}\<close>: a \<^verbatim>\<open>JSONDecodeError\<close> whose message is
  \<^verbatim>\<open>Expecting property name enclosed in double quotes: line 1 column 2 (char 1)\<close> and whose
  document is the substring. The reply occurs in neither.
\<close>

theorem extract_candidate_error_drops_text:
  "extract_json_or_raise (py ''see {oops} here'')
     = Inl (JSONDecodeError (py ''Expecting property name enclosed in double quotes'') (py ''{oops}'') 1)
   \<and> str_error (JSONDecodeError (py ''Expecting property name enclosed in double quotes'') (py ''{oops}'') 1)
     = py ''Expecting property name enclosed in double quotes: line 1 column 2 (char 1)''
   \<and> \<not> py_in (py ''see {oops} here'')
         (py ''Expecting property name enclosed in double quotes: line 1 column 2 (char 1)'')
   \<and> \<not> py_in (py ''see {oops} here'') (py ''{oops}'')"
proof -
  have a: "extract_json_or_raise (py ''see {oops} here'')
     = Inl (JSONDecodeError (py ''Expecting property name enclosed in double quotes'') (py ''{oops}'') 1)"
    by (simp add: extract_eval)
  have b: "str_error (JSONDecodeError (py ''Expecting property name enclosed in double quotes'') (py ''{oops}'') 1)
     = py ''Expecting property name enclosed in double quotes: line 1 column 2 (char 1)''"
    by (simp add: extract_eval lineno_def colno_def str_nat.simps)
  have c: "\<not> py_in (py ''see {oops} here'')
         (py ''Expecting property name enclosed in double quotes: line 1 column 2 (char 1)'')"
  proof
    assume "py_in (py ''see {oops} here'')
         (py ''Expecting property name enclosed in double quotes: line 1 column 2 (char 1)'')"
    from py_in_set [OF this] show False by (simp add: py_def)
  qed
  have d: "\<not> py_in (py ''see {oops} here'') (py ''{oops}'')"
  proof
    assume "py_in (py ''see {oops} here'') (py ''{oops}'')"
    from py_in_set [OF this] show False by (simp add: py_def)
  qed
  from a b c d show ?thesis by simp
qed

section \<open>The stage runners\<close>

text \<open>Each runner makes one gateway call, logs it, and shapes the reply.\<close>

lemma run_company_finder_unfold:
  "run_company_finder gw agent t o' n log =
     ((case gw log agent (company_finder_prompt n t o') of
         Inl e \<Rightarrow> Inl e
       | Inr content \<Rightarrow>
           and_then (extract_json_or_raise content) (\<lambda>data.
           and_then (py_get data (py ''companies'') (JArray [])) (\<lambda>companies.
           py_slice_to companies (max 1 (min n 10))))),
      log @ [(agent, company_finder_prompt n t o')])"
  by (simp add: run_company_finder_def then_run_def agent_run_def lift_def split: sum.splits)

lemma run_contact_finder_unfold:
  "run_contact_finder gw agent cs t o' log =
     ((case gw log agent (contact_finder_prompt t o' (json_dumps False cs)) of
         Inl e \<Rightarrow> Inl e
       | Inr content \<Rightarrow>
           and_then (extract_json_or_raise content) (\<lambda>data.
           py_get data (py ''companies'') (JArray []))),
      log @ [(agent, contact_finder_prompt t o' (json_dumps False cs))])"
  by (simp add: run_contact_finder_def then_run_def agent_run_def lift_def split: sum.splits)

lemma run_research_unfold:
  "run_research gw agent cs log =
     ((case gw log agent (research_prompt (json_dumps False cs)) of
         Inl e \<Rightarrow> Inl e
       | Inr content \<Rightarrow>
           and_then (extract_json_or_raise content) (\<lambda>data.
           py_get data (py ''companies'') (JArray []))),
      log @ [(agent, research_prompt (json_dumps False cs))])"
  by (simp add: run_research_def then_run_def agent_run_def lift_def split: sum.splits)


lemma py_slice_prefix: "0 \<le> k \<Longrightarrow> py_slice xs 0 k = take (nat k) xs"
  by (auto simp: py_slice_def Let_def min_def)

lemma run_company_finder_log:
  "snd (run_company_finder gw agent t o' n log) = log @ [(agent, company_finder_prompt n t o')]"
  by (simp add: run_company_finder_def then_run_def agent_run_def lift_def split: sum.splits)

lemma run_contact_finder_log:
  "snd (run_contact_finder gw agent cs t o' log)
     = log @ [(agent, contact_finder_prompt t o' (json_dumps False cs))]"
  by (simp add: run_contact_finder_def then_run_def agent_run_def lift_def split: sum.splits)

lemma run_research_log:
  "snd (run_research gw agent cs log) = log @ [(agent, research_prompt (json_dumps False cs))]"
  by (simp add: run_research_def then_run_def agent_run_def lift_def split: sum.splits)

lemma run_email_writer_log:
  "snd (run_email_writer gw agent contacts research o' sn sc cl log) =
     log @ [(agent, email_writer_prompt sn sc o'
                 (case cl of None \<Rightarrow> py ''N/A'' | Some l \<Rightarrow> if l = [] then py ''N/A'' else l)
                 (json_dumps False contacts) (json_dumps False research))]"
  by (simp add: run_email_writer_def then_run_def agent_run_def lift_def split: sum.splits)



text \<open>
  C2. For a requested count \<open>N\<close> in \<open>[1, 10]\<close> and a list \<open>L\<close> under the key \<^verbatim>\<open>companies\<close> of the
  parsed reply, \<open>run_company_finder\<close> returns the first \<open>max 1 (min N 10)\<close> elements of \<open>L\<close>, in
  order; the result is no longer than \<open>min N 10\<close> and no longer than \<open>L\<close>.
\<close>

theorem company_finder_returns_prefix:
  assumes "gw log a (company_finder_prompt N t o') = Inr content"
    and "extract_json_or_raise content = Inr (JObject d)"
    and "map_of d (py ''companies'') = Some (JArray L)"
    and "1 \<le> N" and "N \<le> 10"
  shows "fst (run_company_finder gw a t o' N log) = Inr (JArray (take (nat (max 1 (min N 10))) L))
       \<and> length (take (nat (max 1 (min N 10))) L) \<le> nat (min N 10)
       \<and> length (take (nat (max 1 (min N 10))) L) \<le> length L"
  using assms
  by (simp add: run_company_finder_unfold and_then_def dict_get_def py_slice_prefix)

theorem company_finder_returns_prefix_witness:
  "(\<lambda>log a p. Inr (py ''{\"companies\": [1, 2, 3]}'')) [] create_company_finder_agent
      (company_finder_prompt 2 (py ''fintech'') (py ''SaaS''))
     = (Inr (py ''{\"companies\": [1, 2, 3]}'') :: error + pystr)
   \<and> extract_json_or_raise (py ''{\"companies\": [1, 2, 3]}'')
       = Inr (JObject [(py ''companies'', JArray [JInt 1, JInt 2, JInt 3])])
   \<and> map_of [(py ''companies'', JArray [JInt 1, JInt 2, JInt 3])] (py ''companies'')
       = Some (JArray [JInt 1, JInt 2, JInt 3])
   \<and> (1::int) \<le> 2 \<and> (2::int) \<le> 10
   \<and> fst (run_company_finder (\<lambda>log a p. Inr (py ''{\"companies\": [1, 2, 3]}''))
            create_company_finder_agent (py ''fintech'') (py ''SaaS'') 2 [])
       = Inr (JArray [JInt 1, JInt 2])"
proof -
  have a: "(\<lambda>log a p. Inr (py ''{\"companies\": [1, 2, 3]}'')) [] create_company_finder_agent
      (company_finder_prompt 2 (py ''fintech'') (py ''SaaS''))
     = (Inr (py ''{\"companies\": [1, 2, 3]}'') :: error + pystr)"
    by simp
  have b: "extract_json_or_raise (py ''{\"companies\": [1, 2, 3]}'')
       = Inr (JObject [(py ''companies'', JArray [JInt 1, JInt 2, JInt 3])])"
    by (simp add: extract_eval scanstring.simps)
  have c: "map_of [(py ''companies'', JArray [JInt 1, JInt 2, JInt 3])] (py ''companies'')
       = Some (JArray [JInt 1, JInt 2, JInt 3])"
    by simp
  have d: "(1::int) \<le> 2" "(2::int) \<le> 10" by simp_all
  show ?thesis
    using company_finder_returns_prefix [OF a b c d] a b c
    by simp
qed

section \<open>The pipeline\<close>

lemma then_run_fst:
  "then_run m f log =
     (case fst (m log) of Inl e \<Rightarrow> (Inl e, snd (m log)) | Inr x \<Rightarrow> f x (snd (m log)))"
  by (cases "m log") (simp add: then_run_def split: sum.splits)

lemma then_run_lift: "then_run (lift r) f log = (case r of Inl e \<Rightarrow> (Inl e, log) | Inr x \<Rightarrow> f x log)"
  by (simp add: then_run_def lift_def split: sum.splits)

lemma then_run_ret: "then_run (ret x) f log = f x log"
  by (simp add: then_run_def ret_def)

lemma email_writer_agent_distinct:
  "create_email_writer_agent k \<noteq> create_company_finder_agent"
  "create_email_writer_agent k \<noteq> create_contact_finder_agent"
  "create_email_writer_agent k \<noteq> create_research_agent"
  by (simp_all add: create_email_writer_agent_def create_company_finder_agent_def
      create_contact_finder_agent_def create_research_agent_def)

lemma start_outreach_not_completed:
  "fst (start_outreach gw inp st) \<noteq> Completed \<Longrightarrow>
     gtm_results (snd (start_outreach gw inp st)) = gtm_results st"
  by (auto simp: start_outreach_def split: if_splits prod.splits sum.splits)

text \<open>
  C4. When the company finder returns an empty list, the run makes no further gateway call
  (the log grows by the company finder's call alone), it completes, and the stored bundle
  has empty companies, contacts, research and emails.
\<close>

theorem no_companies_short_circuit:
  assumes "in_openai_key inp \<noteq> []" and "in_exa_key inp \<noteq> []"
    and "in_target_desc inp \<noteq> []" and "in_offering_desc inp \<noteq> []"
    and "fst (run_company_finder gw create_company_finder_agent (py_strip (in_target_desc inp))
               (py_strip (in_offering_desc inp)) (in_num_companies inp) (agent_calls st))
           = Inr (JArray [])"
  shows "start_outreach gw inp st =
           (Completed,
            st\<lparr>gtm_results := Some \<lparr>res_companies = JArray [], res_contacts = JArray [],
                                    res_research = JArray [], res_emails = JArray []\<rparr>,
               agent_calls := agent_calls st @
                 [(create_company_finder_agent,
                   company_finder_prompt (in_num_companies inp) (py_strip (in_target_desc inp))
                     (py_strip (in_offering_desc inp)))]\<rparr>)"
proof -
  have "pipeline gw inp (agent_calls st) =
          (Inr \<lparr>res_companies = JArray [], res_contacts = JArray [],
                res_research = JArray [], res_emails = JArray []\<rparr>,
           agent_calls st @
             [(create_company_finder_agent,
               company_finder_prompt (in_num_companies inp) (py_strip (in_target_desc inp))
                 (py_strip (in_offering_desc inp)))])"
    unfolding pipeline_def Let_def
    by (simp add: then_run_fst assms(5) run_company_finder_log lift_def ret_def)
  with assms(1-4) show ?thesis
    by (simp add: start_outreach_def)
qed

text \<open>
  C5. When the company finder returns a non-empty collection and the contact finder an
  empty one, the run calls the gateway three times, for the company finder, the contact
  finder and the researcher; the email writer's agent is not among the calls. The run
  then either completes, with the contact finder's collection and an empty email list in
  the bundle, or fails (the researcher's stage raised) and leaves the stored bundle as it
  was.
\<close>

theorem no_contacts_skips_email_writer:
  fixes gw :: gateway and inp :: inputs and st :: app_state
  defines "t \<equiv> py_strip (in_target_desc inp)"
    and "o' \<equiv> py_strip (in_offering_desc inp)"
  defines "cf \<equiv> run_company_finder gw create_company_finder_agent t o' (in_num_companies inp)
                   (agent_calls st)"
  assumes "in_openai_key inp \<noteq> []" and "in_exa_key inp \<noteq> []"
    and "in_target_desc inp \<noteq> []" and "in_offering_desc inp \<noteq> []"
    and "fst cf = Inr companies" and "py_len companies = Inr n" and "0 < n"
    and "fst (run_contact_finder gw create_contact_finder_agent companies t o' (snd cf))
           = Inr contacts"
    and "py_len contacts = Inr 0"
  shows "agent_calls (snd (start_outreach gw inp st)) =
           agent_calls st @
             [(create_company_finder_agent, company_finder_prompt (in_num_companies inp) t o'),
              (create_contact_finder_agent,
               contact_finder_prompt t o' (json_dumps False companies)),
              (create_research_agent, research_prompt (json_dumps False companies))]
       \<and> create_email_writer_agent (in_email_style inp)
           \<notin> fst ` set (drop (length (agent_calls st)) (agent_calls (snd (start_outreach gw inp st))))
       \<and> (case fst (start_outreach gw inp st) of
             Completed \<Rightarrow>
               (\<exists>r. gtm_results (snd (start_outreach gw inp st)) = Some r
                    \<and> res_contacts r = contacts \<and> res_emails r = JArray [])
           | Failed m \<Rightarrow> gtm_results (snd (start_outreach gw inp st)) = gtm_results st
           | Rejected m \<Rightarrow> False)"
proof -
  let ?ct = "run_contact_finder gw create_contact_finder_agent companies t o' (snd cf)"
  let ?rs = "run_research gw create_research_agent companies (snd ?ct)"
  have p: "pipeline gw inp (agent_calls st) =
             (case fst ?rs of
                Inl e \<Rightarrow> (Inl e, snd ?rs)
              | Inr research \<Rightarrow>
                  (case py_len research of
                     Inl e \<Rightarrow> (Inl e, snd ?rs)
                   | Inr k \<Rightarrow>
                       (Inr \<lparr>res_companies = companies, res_contacts = contacts,
                             res_research = research, res_emails = JArray []\<rparr>, snd ?rs)))"
    using assms(8-12) unfolding pipeline_def Let_def cf_def t_def o'_def
    by (simp add: then_run_fst lift_def ret_def split: sum.splits)
  have l: "snd ?rs =
             agent_calls st @
               [(create_company_finder_agent, company_finder_prompt (in_num_companies inp) t o'),
                (create_contact_finder_agent,
                 contact_finder_prompt t o' (json_dumps False companies)),
                (create_research_agent, research_prompt (json_dumps False companies))]"
    by (simp add: run_research_log run_contact_finder_log run_company_finder_log cf_def)
  show ?thesis
    using assms(4-7) p l
    by (auto simp: start_outreach_def email_writer_agent_distinct split: sum.splits)
qed

text \<open>
  C3. \<open>cf\<close>, \<open>ct\<close>, \<open>rs\<close> and \<open>ew\<close> are the four runners as the run invokes them, each on the log
  its predecessor left. If one of them raises \<open>e\<close> (the contact finder and the researcher
  are invoked only for a non-empty company collection, the email writer only for a
  non-empty contact collection), the run ends as \<open>Failed\<close> with the text of \<open>e\<close>, and the stored
  bundle is the one from before the run. More generally the stored bundle changes only in
  a run that ends as \<open>Completed\<close>: it is assigned once, after the last stage.
\<close>

theorem failed_run_keeps_results:
  fixes gw :: gateway and inp :: inputs and st :: app_state
  defines "t \<equiv> py_strip (in_target_desc inp)"
    and "o' \<equiv> py_strip (in_offering_desc inp)"
  defines "cf \<equiv> run_company_finder gw create_company_finder_agent t o' (in_num_companies inp)
                   (agent_calls st)"
  defines "ct \<equiv> \<lambda>companies. run_contact_finder gw create_contact_finder_agent companies t o' (snd cf)"
  defines "rs \<equiv> \<lambda>companies. run_research gw create_research_agent companies (snd (ct companies))"
  defines "ew \<equiv> \<lambda>companies contacts research.
                   run_email_writer gw (create_email_writer_agent (in_email_style inp)) contacts
                     research o' (str_or (py_strip (in_sender_name inp)) (py ''Sales Team''))
                     (str_or (py_strip (in_sender_company inp)) (py ''Our Company''))
                     (if py_strip (in_calendar_link inp) = [] then None
                      else Some (py_strip (in_calendar_link inp)))
                     (snd (rs companies))"
  assumes "in_openai_key inp \<noteq> []" and "in_exa_key inp \<noteq> []"
    and "in_target_desc inp \<noteq> []" and "in_offering_desc inp \<noteq> []"
  shows "((fst cf = Inl e
           \<or> (\<exists>companies n. fst cf = Inr companies \<and> py_len companies = Inr n \<and> 0 < n
                \<and> (fst (ct companies) = Inl e
                    \<or> (\<exists>contacts m. fst (ct companies) = Inr contacts \<and> py_len contacts = Inr m
                         \<and> (fst (rs companies) = Inl e
                             \<or> (\<exists>research k. fst (rs companies) = Inr research
                                  \<and> py_len research = Inr k \<and> 0 < m
                                  \<and> fst (ew companies contacts research) = Inl e))))))
          \<longrightarrow> fst (start_outreach gw inp st) = Failed (str_error e)
              \<and> gtm_results (snd (start_outreach gw inp st)) = gtm_results st)
       \<and> (fst (start_outreach gw inp st) \<noteq> Completed
          \<longrightarrow> gtm_results (snd (start_outreach gw inp st)) = gtm_results st)"
proof -
  let ?stage_raises =
    "fst cf = Inl e
     \<or> (\<exists>companies n. fst cf = Inr companies \<and> py_len companies = Inr n \<and> 0 < n
          \<and> (fst (ct companies) = Inl e
              \<or> (\<exists>contacts m. fst (ct companies) = Inr contacts \<and> py_len contacts = Inr m
                   \<and> (fst (rs companies) = Inl e
                       \<or> (\<exists>research k. fst (rs companies) = Inr research
                            \<and> py_len research = Inr k \<and> 0 < m
                            \<and> fst (ew companies contacts research) = Inl e)))))"
  note defs = pipeline_def Let_def cf_def ct_def rs_def ew_def t_def o'_def
  have "fst (pipeline gw inp (agent_calls st)) = Inl e" if sr: ?stage_raises
  proof -
    consider (company) "fst cf = Inl e"
      | (contact) companies n where "fst cf = Inr companies" "py_len companies = Inr n" "0 < n"
          "fst (ct companies) = Inl e"
      | (research) companies n contacts m where "fst cf = Inr companies"
          "py_len companies = Inr n" "0 < n" "fst (ct companies) = Inr contacts"
          "py_len contacts = Inr m" "fst (rs companies) = Inl e"
      | (email) companies n contacts m research k where "fst cf = Inr companies"
          "py_len companies = Inr n" "0 < n" "fst (ct companies) = Inr contacts"
          "py_len contacts = Inr m" "fst (rs companies) = Inr research"
          "py_len research = Inr k" "0 < m" "fst (ew companies contacts research) = Inl e"
      using sr by blast
    then show ?thesis
    proof cases
      case company
      then show ?thesis
        unfolding defs by (simp add: then_run_fst split del: if_split)
    next
      case contact
      then show ?thesis
        unfolding defs by (simp add: then_run_fst lift_def split del: if_split)
    next
      case research
      then show ?thesis
        unfolding defs by (simp add: then_run_fst lift_def split del: if_split)
    next
      case email
      then show ?thesis
        unfolding defs by (simp add: then_run_fst lift_def split del: if_split)
    qed
  qed
  then have a: "?stage_raises \<longrightarrow> fst (start_outreach gw inp st) = Failed (str_error e)"
    using assms(7-10)
    by (auto simp: start_outreach_def split: prod.splits sum.splits)
  have b: "fst (start_outreach gw inp st) \<noteq> Completed
             \<longrightarrow> gtm_results (snd (start_outreach gw inp st)) = gtm_results st"
    using start_outreach_not_completed [of gw inp st] by blast
  from a b show ?thesis by (metis outcome.distinct(5))
qed

section \<open>Concrete runs against stub gateways\<close>

text \<open>
  Three runs on the form values of the specification's end-to-end scenario. In the first
  the gateway answers \<^verbatim>\<open>{"companies": []}\<close> to every call; in the second the company finder
  gets one company and every other agent \<^verbatim>\<open>{}\<close>; in the third the contact finder gets
  \<^verbatim>\<open>garbage\<close> while a bundle of an earlier run is stored.
\<close>

lemma eval_empty_companies:
  "extract_json_or_raise (py ''{\"companies\": []}'') = Inr (JObject [(py ''companies'', JArray [])])"
  by (simp add: extract_eval scanstring.simps)

lemma eval_one_company:
  "extract_json_or_raise (py ''{\"companies\": [1]}'')
     = Inr (JObject [(py ''companies'', JArray [JInt 1])])"
  by (simp add: extract_eval scanstring.simps)

lemma eval_empty_object: "extract_json_or_raise (py ''{}'') = Inr (JObject [])"
  by (simp add: extract_eval)

lemma eval_garbage:
  "extract_json_or_raise (py ''garbage'')
     = Inl (ValueError (py ''Failed to parse JSON: Expecting value: line 1 column 1 (char 0)''
              @ [10] @ py ''Response was:'' @ [10] @ py ''garbage''))"
  by (simp add: extract_eval lineno_def colno_def str_nat.simps)

theorem no_companies_short_circuit_witness:
  "fst (start_outreach (\<lambda>log a p. Inr (py ''{\"companies\": []}''))
          \<lparr>in_openai_key = py ''sk-1'', in_exa_key = py ''exa-1'',
           in_target_desc = py ''seed-stage fintech startups'',
           in_offering_desc = py ''compliance automation SaaS'',
           in_sender_name = [], in_sender_company = [], in_calendar_link = [],
           in_num_companies = 3, in_email_style = py ''Cold''\<rparr>
          \<lparr>gtm_results = None, agent_calls = []\<rparr>) = Completed
   \<and> gtm_results (snd (start_outreach (\<lambda>log a p. Inr (py ''{\"companies\": []}''))
          \<lparr>in_openai_key = py ''sk-1'', in_exa_key = py ''exa-1'',
           in_target_desc = py ''seed-stage fintech startups'',
           in_offering_desc = py ''compliance automation SaaS'',
           in_sender_name = [], in_sender_company = [], in_calendar_link = [],
           in_num_companies = 3, in_email_style = py ''Cold''\<rparr>
          \<lparr>gtm_results = None, agent_calls = []\<rparr>))
       = Some \<lparr>res_companies = JArray [], res_contacts = JArray [],
               res_research = JArray [], res_emails = JArray []\<rparr>
   \<and> map fst (agent_calls (snd (start_outreach (\<lambda>log a p. Inr (py ''{\"companies\": []}''))
          \<lparr>in_openai_key = py ''sk-1'', in_exa_key = py ''exa-1'',
           in_target_desc = py ''seed-stage fintech startups'',
           in_offering_desc = py ''compliance automation SaaS'',
           in_sender_name = [], in_sender_company = [], in_calendar_link = [],
           in_num_companies = 3, in_email_style = py ''Cold''\<rparr>
          \<lparr>gtm_results = None, agent_calls = []\<rparr>)))
       = [create_company_finder_agent]"
proof -
  let ?gw = "(\<lambda>log a p. Inr (py ''{\"companies\": []}'')) :: gateway"
  let ?inp = "\<lparr>in_openai_key = py ''sk-1'', in_exa_key = py ''exa-1'',
           in_target_desc = py ''seed-stage fintech startups'',
           in_offering_desc = py ''compliance automation SaaS'',
           in_sender_name = [], in_sender_company = [], in_calendar_link = [],
           in_num_companies = 3, in_email_style = py ''Cold''\<rparr>"
  let ?st = "\<lparr>gtm_results = None, agent_calls = []\<rparr>"
  have k: "in_openai_key ?inp \<noteq> []" "in_exa_key ?inp \<noteq> []"
    "in_target_desc ?inp \<noteq> []" "in_offering_desc ?inp \<noteq> []"
    by (simp_all add: py_def)
  have c: "fst (run_company_finder ?gw create_company_finder_agent (py_strip (in_target_desc ?inp))
               (py_strip (in_offering_desc ?inp)) (in_num_companies ?inp) (agent_calls ?st))
           = Inr (JArray [])"
    by (simp add: run_company_finder_unfold eval_empty_companies and_then_def dict_get_def
        py_slice_def)
  show ?thesis
    using no_companies_short_circuit [OF k c] by simp
qed

lemma start_outreach_fst:
  "start_outreach gw inp st =
     (if in_openai_key inp = [] \<or> in_exa_key inp = [] then
        (Rejected (py ''Please provide API keys in the sidebar''), st)
      else if in_target_desc inp = [] \<or> in_offering_desc inp = [] then
        (Rejected (py ''Please fill in target companies and offering''), st)
      else
        (case fst (pipeline gw inp (agent_calls st)) of
           Inr res \<Rightarrow>
             (Completed, st\<lparr>gtm_results := Some res,
                           agent_calls := snd (pipeline gw inp (agent_calls st))\<rparr>)
         | Inl e \<Rightarrow>
             (Failed (str_error e), st\<lparr>agent_calls := snd (pipeline gw inp (agent_calls st))\<rparr>)))"
  by (cases "pipeline gw inp (agent_calls st)") (simp add: start_outreach_def split: sum.splits)

lemma py_strip_plain:
  "py_strip (py ''seed-stage fintech startups'') = py ''seed-stage fintech startups''"
  "py_strip (py ''compliance automation SaaS'') = py ''compliance automation SaaS''"
  by (simp_all add: py_strip_def py_def is_space_def)

theorem no_contacts_skips_email_writer_witness:
  "fst (start_outreach (\<lambda>log a p. if session_id a = py ''gtm_outreach_company_finder''
                     then Inr (py ''{\"companies\": [1]}'') else Inr (py ''{}''))
          \<lparr>in_openai_key = py ''sk-1'', in_exa_key = py ''exa-1'',
           in_target_desc = py ''seed-stage fintech startups'',
           in_offering_desc = py ''compliance automation SaaS'',
           in_sender_name = [], in_sender_company = [], in_calendar_link = [],
           in_num_companies = 3, in_email_style = py ''Cold''\<rparr>
          \<lparr>gtm_results = None, agent_calls = []\<rparr>) = Completed
   \<and> map fst (agent_calls (snd (start_outreach (\<lambda>log a p. if session_id a = py ''gtm_outreach_company_finder''
                     then Inr (py ''{\"companies\": [1]}'') else Inr (py ''{}''))
          \<lparr>in_openai_key = py ''sk-1'', in_exa_key = py ''exa-1'',
           in_target_desc = py ''seed-stage fintech startups'',
           in_offering_desc = py ''compliance automation SaaS'',
           in_sender_name = [], in_sender_company = [], in_calendar_link = [],
           in_num_companies = 3, in_email_style = py ''Cold''\<rparr>
          \<lparr>gtm_results = None, agent_calls = []\<rparr>)))
       = [create_company_finder_agent, create_contact_finder_agent, create_research_agent]
   \<and> (\<exists>r. gtm_results (snd (start_outreach (\<lambda>log a p. if session_id a = py ''gtm_outreach_company_finder''
                     then Inr (py ''{\"companies\": [1]}'') else Inr (py ''{}''))
          \<lparr>in_openai_key = py ''sk-1'', in_exa_key = py ''exa-1'',
           in_target_desc = py ''seed-stage fintech startups'',
           in_offering_desc = py ''compliance automation SaaS'',
           in_sender_name = [], in_sender_company = [], in_calendar_link = [],
           in_num_companies = 3, in_email_style = py ''Cold''\<rparr>
          \<lparr>gtm_results = None, agent_calls = []\<rparr>)) = Some r
          \<and> res_companies r = JArray [JInt 1] \<and> res_contacts r = JArray []
          \<and> res_emails r = JArray [])"
proof -
  let ?gw = "(\<lambda>log a p. if session_id a = py ''gtm_outreach_company_finder''
                     then Inr (py ''{\"companies\": [1]}'') else Inr (py ''{}'')) :: gateway"
  let ?inp = "\<lparr>in_openai_key = py ''sk-1'', in_exa_key = py ''exa-1'',
           in_target_desc = py ''seed-stage fintech startups'',
           in_offering_desc = py ''compliance automation SaaS'',
           in_sender_name = [], in_sender_company = [], in_calendar_link = [],
           in_num_companies = 3, in_email_style = py ''Cold''\<rparr>"
  let ?st = "\<lparr>gtm_results = None, agent_calls = []\<rparr>"
  let ?t = "py_strip (in_target_desc ?inp)"
  let ?o = "py_strip (in_offering_desc ?inp)"
  let ?cf = "run_company_finder ?gw create_company_finder_agent ?t ?o (in_num_companies ?inp)
               (agent_calls ?st)"
  have k: "in_openai_key ?inp \<noteq> []" "in_exa_key ?inp \<noteq> []"
    "in_target_desc ?inp \<noteq> []" "in_offering_desc ?inp \<noteq> []"
    by (simp_all add: py_def)
  have sid: "session_id create_company_finder_agent = py ''gtm_outreach_company_finder''"
    "session_id create_contact_finder_agent \<noteq> py ''gtm_outreach_company_finder''"
    "session_id create_research_agent \<noteq> py ''gtm_outreach_company_finder''"
    by (simp_all add: create_company_finder_agent_def create_contact_finder_agent_def
        create_research_agent_def py_def)
  have c: "fst ?cf = Inr (JArray [JInt 1])"
    by (simp add: run_company_finder_unfold sid eval_one_company and_then_def dict_get_def
        py_slice_def)
  have n: "py_len (JArray [JInt 1]) = Inr 1" "(0::nat) < 1" by simp_all
  have d: "fst (run_contact_finder ?gw create_contact_finder_agent (JArray [JInt 1]) ?t ?o (snd ?cf))
             = Inr (JArray [])"
    by (simp add: run_contact_finder_unfold sid eval_empty_object and_then_def dict_get_def)
  have m: "py_len (JArray []) = Inr 0" by simp
  have r: "fst (pipeline ?gw ?inp (agent_calls ?st)) =
             Inr \<lparr>res_companies = JArray [JInt 1], res_contacts = JArray [],
                   res_research = JArray [], res_emails = JArray []\<rparr>"
    using c d unfolding pipeline_def Let_def
    by (simp add: then_run_fst lift_def ret_def run_research_unfold sid eval_empty_object
        and_then_def dict_get_def)
  have out: "fst (start_outreach ?gw ?inp ?st) = Completed"
    using r k by (simp add: start_outreach_fst)
  have res: "gtm_results (snd (start_outreach ?gw ?inp ?st)) =
               Some \<lparr>res_companies = JArray [JInt 1], res_contacts = JArray [],
                     res_research = JArray [], res_emails = JArray []\<rparr>"
    using r k by (simp add: start_outreach_fst)
  show ?thesis
    using no_contacts_skips_email_writer [OF k c n d m] out res
    by simp
qed

theorem failed_run_keeps_results_witness:
  "fst (start_outreach (\<lambda>log a p. if session_id a = py ''gtm_outreach_company_finder''
                     then Inr (py ''{\"companies\": [1]}'') else Inr (py ''garbage''))
          \<lparr>in_openai_key = py ''sk-1'', in_exa_key = py ''exa-1'',
           in_target_desc = py ''seed-stage fintech startups'',
           in_offering_desc = py ''compliance automation SaaS'',
           in_sender_name = [], in_sender_company = [], in_calendar_link = [],
           in_num_companies = 3, in_email_style = py ''Cold''\<rparr>
          \<lparr>gtm_results = Some \<lparr>res_companies = JArray [JInt 7], res_contacts = JArray [],
                                 res_research = JArray [], res_emails = JArray []\<rparr>,
           agent_calls = []\<rparr>)
     = Failed (py ''Failed to parse JSON: Expecting value: line 1 column 1 (char 0)''
                @ [10] @ py ''Response was:'' @ [10] @ py ''garbage'')
   \<and> gtm_results (snd (start_outreach (\<lambda>log a p. if session_id a = py ''gtm_outreach_company_finder''
                     then Inr (py ''{\"companies\": [1]}'') else Inr (py ''garbage''))
          \<lparr>in_openai_key = py ''sk-1'', in_exa_key = py ''exa-1'',
           in_target_desc = py ''seed-stage fintech startups'',
           in_offering_desc = py ''compliance automation SaaS'',
           in_sender_name = [], in_sender_company = [], in_calendar_link = [],
           in_num_companies = 3, in_email_style = py ''Cold''\<rparr>
          \<lparr>gtm_results = Some \<lparr>res_companies = JArray [JInt 7], res_contacts = JArray [],
                                 res_research = JArray [], res_emails = JArray []\<rparr>,
           agent_calls = []\<rparr>))
     = Some \<lparr>res_companies = JArray [JInt 7], res_contacts = JArray [],
             res_research = JArray [], res_emails = JArray []\<rparr>"
proof -
  let ?gw = "(\<lambda>log a p. if session_id a = py ''gtm_outreach_company_finder''
                     then Inr (py ''{\"companies\": [1]}'') else Inr (py ''garbage'')) :: gateway"
  let ?inp = "\<lparr>in_openai_key = py ''sk-1'', in_exa_key = py ''exa-1'',
           in_target_desc = py ''seed-stage fintech startups'',
           in_offering_desc = py ''compliance automation SaaS'',
           in_sender_name = [], in_sender_company = [], in_calendar_link = [],
           in_num_companies = 3, in_email_style = py ''Cold''\<rparr>"
  let ?st = "\<lparr>gtm_results = Some \<lparr>res_companies = JArray [JInt 7], res_contacts = JArray [],
                                 res_research = JArray [], res_emails = JArray []\<rparr>,
           agent_calls = []\<rparr>"
  let ?t = "py_strip (in_target_desc ?inp)"
  let ?o = "py_strip (in_offering_desc ?inp)"
  let ?cf = "run_company_finder ?gw create_company_finder_agent ?t ?o (in_num_companies ?inp)
               (agent_calls ?st)"
  let ?e = "ValueError (py ''Failed to parse JSON: Expecting value: line 1 column 1 (char 0)''
              @ [10] @ py ''Response was:'' @ [10] @ py ''garbage'')"
  have k: "in_openai_key ?inp \<noteq> []" "in_exa_key ?inp \<noteq> []"
    "in_target_desc ?inp \<noteq> []" "in_offering_desc ?inp \<noteq> []"
    by (simp_all add: py_def)
  have sid: "session_id create_company_finder_agent = py ''gtm_outreach_company_finder''"
    "session_id create_contact_finder_agent \<noteq> py ''gtm_outreach_company_finder''"
    by (simp_all add: create_company_finder_agent_def create_contact_finder_agent_def py_def)
  have c: "fst ?cf = Inr (JArray [JInt 1])"
    by (simp add: run_company_finder_unfold sid eval_one_company and_then_def dict_get_def
        py_slice_def)
  have n: "py_len (JArray [JInt 1]) = Inr 1" "(0::nat) < 1" by simp_all
  have d: "fst (run_contact_finder ?gw create_contact_finder_agent (JArray [JInt 1]) ?t ?o (snd ?cf))
             = Inl ?e"
    by (simp add: run_contact_finder_unfold sid eval_garbage and_then_def)
  note T = failed_run_keeps_results [OF k, where gw = ?gw and st = ?st and e = ?e]
  have "fst (start_outreach ?gw ?inp ?st) = Failed (str_error ?e)
        \<and> gtm_results (snd (start_outreach ?gw ?inp ?st)) = gtm_results ?st"
    using T [THEN conjunct1] c n d by blast
  then show ?thesis by simp
qed

section \<open>Parsing what the encoder wrote\<close>

subsection \<open>Strings\<close>

lemma hex_digit_hex_char: "d < 16 \<Longrightarrow> hex_digit (hex_char d) = Some d"
  by (auto simp: hex_digit_def hex_char_def)

lemma hex_recompose:
  assumes "n < 65536"
  shows "((n div 4096 mod 16 * 16 + n div 256 mod 16) * 16 + n div 16 mod 16) * 16 + n mod 16
           = (n::nat)"
proof -
  have a: "n div 4096 mod 16 = n div 4096"
    using assms by (simp add: div_less_iff_less_mult)
  have "n div 256 div 16 = n div 4096" "n div 16 div 16 = n div 256"
    by (simp_all add: div_mult2_eq [symmetric])
  then have b: "n div 4096 * 16 + n div 256 mod 16 = n div 256"
    and c: "n div 256 * 16 + n div 16 mod 16 = n div 16"
    using div_mult_mod_eq [of "n div 256" 16] div_mult_mod_eq [of "n div 16" 16]
    by (simp_all only:)
  have d: "n div 16 * 16 + n mod 16 = n"
    by (rule div_mult_mod_eq)
  show ?thesis
    by (simp only: a b c d)
qed

lemma hex4_digits:
  assumes "n < 65536"
  shows "hex4 [hex_char (n div 4096 mod 16), hex_char (n div 256 mod 16),
               hex_char (n div 16 mod 16), hex_char (n mod 16)] = Some n"
proof -
  have "hex4 [hex_char (n div 4096 mod 16), hex_char (n div 256 mod 16),
               hex_char (n div 16 mod 16), hex_char (n mod 16)]
        = Some (((n div 4096 mod 16 * 16 + n div 256 mod 16) * 16 + n div 16 mod 16) * 16
                  + n mod 16)"
    unfolding hex4_def
    by (simp only: list.map hex_digit_hex_char mod_less_divisor zero_less_numeral
        list.case option.case)
  then show ?thesis
    by (simp only: hex_recompose [OF assms])
qed

lemma scanstring_u_escape:
  assumes "n < 65536" and "rest \<noteq> []"
    and "\<not> (0xD800 \<le> n \<and> n \<le> 0xDBFF)"
  shows "scanstring b (u_escape n @ rest) = push n (scanstring b rest)"
proof -
  have "scanstring b (92 # 117 # [hex_char (n div 4096 mod 16), hex_char (n div 256 mod 16),
            hex_char (n div 16 mod 16), hex_char (n mod 16)] @ rest)
          = push n (scanstring b rest)"
    apply (subst scanstring.simps(2))
    using assms hex4_digits [OF assms(1)]
    apply (auto simp add: Let_def simp del: scanstring.simps)
    done
  then show ?thesis by (simp add: u_escape_def del: scanstring.simps)
qed

lemma scanstring_u_escape_pair:
  assumes "0xD800 \<le> hi" and "hi \<le> 0xDBFF" and "0xDC00 \<le> lo" and "lo \<le> 0xDFFF"
    and "rest \<noteq> []"
  shows "scanstring b (u_escape hi @ u_escape lo @ rest)
           = push (0x10000 + (hi - 0xD800) * 1024 + (lo - 0xDC00)) (scanstring b rest)"
proof -
  have h: "hi < 65536" "lo < 65536" using assms by simp_all
  have "scanstring b (92 # 117 # [hex_char (hi div 4096 mod 16), hex_char (hi div 256 mod 16),
            hex_char (hi div 16 mod 16), hex_char (hi mod 16)] @
          92 # 117 # [hex_char (lo div 4096 mod 16), hex_char (lo div 256 mod 16),
            hex_char (lo div 16 mod 16), hex_char (lo mod 16)] @ rest)
          = push (0x10000 + (hi - 0xD800) * 1024 + (lo - 0xDC00)) (scanstring b rest)"
    apply (subst scanstring.simps(2))
    using assms hex4_digits [OF h(1)] hex4_digits [OF h(2)]
    apply (auto simp add: Let_def simp del: scanstring.simps)
    done
  then show ?thesis by (simp add: u_escape_def del: scanstring.simps)
qed

lemma scanstring_two_char_escape:
  "backslash e = Some c \<Longrightarrow> e \<noteq> 117 \<Longrightarrow> scanstring b (92 # e # rest) = push c (scanstring b rest)"
  by (subst scanstring.simps(2)) (simp del: scanstring.simps)

lemma scanstring_raw:
  "32 \<le> c \<Longrightarrow> c \<noteq> 34 \<Longrightarrow> c \<noteq> 92 \<Longrightarrow> scanstring b (c # rest) = push c (scanstring b rest)"
  by (subst scanstring.simps(2)) (simp del: scanstring.simps)

lemma surrogate_pair_value:
  assumes "0x10000 \<le> c" and "c < 0x110000"
  shows "0x10000 + (0xD800 + (c - 0x10000) div 1024 mod 1024 - 0xD800) * 1024
           + (0xDC00 + (c - 0x10000) mod 1024 - 0xDC00) = (c::nat)"
proof -
  have "(c - 0x10000) div 1024 mod 1024 = (c - 0x10000) div 1024"
    using assms by (simp add: div_less_iff_less_mult)
  moreover have "(c - 0x10000) div 1024 * 1024 + (c - 0x10000) mod 1024 = c - 0x10000"
    by (rule div_mult_mod_eq)
  ultimately show ?thesis using assms by simp
qed

lemma scanstring_escape_char:
  assumes "ea \<longrightarrow> scalar_value c" and "rest \<noteq> []"
  shows "scanstring b (escape_char ea c @ rest) = push c (scanstring b rest)"
proof (cases "c = 92 \<or> c = 34 \<or> c = 8 \<or> c = 12 \<or> c = 10 \<or> c = 13 \<or> c = 9")
  case True
  then obtain e where "escape_char ea c = [92, e]" "backslash e = Some c" "e \<noteq> 117"
    by (auto simp: escape_char_def backslash_def)
  then show ?thesis by (simp add: scanstring_two_char_escape del: scanstring.simps)
next
  case special: False
  show ?thesis
  proof (cases "c < 32")
    case True
    with special have "escape_char ea c = u_escape c"
      by (simp add: escape_char_def)
    then show ?thesis
      using True assms(2) by (simp add: scanstring_u_escape del: scanstring.simps)
  next
    case printable: False
    show ?thesis
    proof (cases "\<not> ea \<or> c \<le> 126")
      case True
      with special printable have "escape_char ea c = [c]"
        by (auto simp: escape_char_def)
      then show ?thesis
        using special printable by (simp add: scanstring_raw del: scanstring.simps)
    next
      case False
      then have sv: "scalar_value c" using assms(1) by simp
      show ?thesis
      proof (cases "c < 0x10000")
        case True
        with special printable False have e: "escape_char ea c = u_escape c"
          by (simp add: escape_char_def)
        have ns: "\<not> (0xD800 \<le> c \<and> c \<le> 0xDBFF)"
          using sv by (auto simp: scalar_value_def)
        show ?thesis
          using scanstring_u_escape [OF True assms(2) ns, of b] e by (simp only:)
      next
        case big: False
        with special printable False
        have e: "escape_char ea c = u_escape (0xD800 + (c - 0x10000) div 1024 mod 1024)
                   @ u_escape (0xDC00 + (c - 0x10000) mod 1024)"
          by (simp add: escape_char_def)
        have m: "(c - 0x10000) div 1024 mod 1024 < 1024" "(c - 0x10000) mod 1024 < 1024"
          by simp_all
        have "scanstring b (u_escape (0xD800 + (c - 0x10000) div 1024 mod 1024)
                  @ u_escape (0xDC00 + (c - 0x10000) mod 1024) @ rest)
                = push (0x10000 + (0xD800 + (c - 0x10000) div 1024 mod 1024 - 0xD800) * 1024
                          + (0xDC00 + (c - 0x10000) mod 1024 - 0xDC00)) (scanstring b rest)"
          using m assms(2) by (intro scanstring_u_escape_pair) simp_all
        moreover have "0x10000 + (0xD800 + (c - 0x10000) div 1024 mod 1024 - 0xD800) * 1024
                          + (0xDC00 + (c - 0x10000) mod 1024 - 0xDC00) = c"
          using big sv by (intro surrogate_pair_value) (simp_all add: scalar_value_def)
        ultimately show ?thesis
          by (simp only: e append_assoc)
      qed
    qed
  qed
qed

lemma scanstring_encoded:
  "text_ok ea s \<Longrightarrow>
     scanstring b (concat (map (escape_char ea) s) @ 34 # rest) = Inr (s, rest)"
proof (induction s)
  case Nil
  then show ?case by simp
next
  case (Cons c s)
  then have ih: "scanstring b (concat (map (escape_char ea) s) @ 34 # rest) = Inr (s, rest)"
    and c: "ea \<longrightarrow> scalar_value c"
    by (simp_all add: text_ok_def)
  have "scanstring b (escape_char ea c @ (concat (map (escape_char ea) s) @ 34 # rest))
          = push c (scanstring b (concat (map (escape_char ea) s) @ 34 # rest))"
    using c by (intro scanstring_escape_char) simp_all
  then show ?case by (simp add: ih push_def del: scanstring.simps)
qed

lemma scan_once_string:
  "text_ok ea s \<Longrightarrow> scan_once (encode_basestring ea s @ rest) = Inr (JString s, rest)"
  unfolding encode_basestring_def
  by (subst scan_once.simps) (simp add: scanstring_encoded del: scanstring.simps)

subsection \<open>Integers\<close>

lemma str_nat_digits: "list_all is_digit (str_nat n) \<and> str_nat n \<noteq> []"
proof (induction n rule: str_nat.induct)
  case (1 n)
  show ?case
  proof (cases "n < 10")
    case True
    then show ?thesis by (subst (1 2) str_nat.simps) (simp add: is_digit_def)
  next
    case False
    have "is_digit (48 + n mod 10)" by (simp add: is_digit_def)
    with "1.IH" False show ?thesis by (subst (1 2) str_nat.simps) simp
  qed
qed

lemma str_nat_hd: "0 < n \<Longrightarrow> 49 \<le> hd (str_nat n) \<and> hd (str_nat n) \<le> 57"
proof (induction n rule: str_nat.induct)
  case (1 n)
  show ?case
  proof (cases "n < 10")
    case True
    with "1.prems" show ?thesis by (subst (1 2) str_nat.simps) simp
  next
    case False
    then have "0 < n div 10" by simp
    with "1.IH" False have "49 \<le> hd (str_nat (n div 10)) \<and> hd (str_nat (n div 10)) \<le> 57"
      by simp
    moreover have "str_nat (n div 10) \<noteq> []" using str_nat_digits by blast
    ultimately show ?thesis
      using False by (subst (1 2) str_nat.simps) simp
  qed
qed

lemma digits_value_snoc: "digits_value (ds @ [d]) = 10 * digits_value ds + (d - 48)"
  by (simp add: digits_value_def)

lemma digits_value_str_nat: "digits_value (str_nat n) = n"
proof (induction n rule: str_nat.induct)
  case (1 n)
  show ?case
  proof (cases "n < 10")
    case True
    then show ?thesis by (subst str_nat.simps) (simp add: digits_value_def)
  next
    case False
    with "1.IH" have "digits_value (str_nat (n div 10)) = n div 10" by simp
    then show ?thesis
      using False by (subst str_nat.simps) (simp add: digits_value_snoc)
  qed
qed

lemma ends_value_no_digit: "ends_value rest \<Longrightarrow> takeWhile is_digit rest = [] \<and> dropWhile is_digit rest = rest"
  by (cases rest) (auto simp: ends_value_def is_digit_def)

lemma takeWhile_digits:
  "list_all is_digit ds \<Longrightarrow> ends_value rest \<Longrightarrow>
     takeWhile is_digit (ds @ rest) = ds \<and> dropWhile is_digit (ds @ rest) = rest"
  using ends_value_no_digit [of rest]
  by (induction ds) simp_all

lemma match_int_str_nat:
  assumes "ends_value rest"
  shows "match_int (str_nat n @ rest) = Some (str_nat n, rest)"
proof (cases "n = 0")
  case True
  have "str_nat 0 = [48]" by (subst str_nat.simps) simp
  with True show ?thesis by (simp add: match_int_def next_is_def)
next
  case False
  obtain c ds where cd: "str_nat n = c # ds"
    using str_nat_digits [of n] by (cases "str_nat n") auto
  with str_nat_hd [of n] False have c: "49 \<le> c" "c \<le> 57" by simp_all
  from cd str_nat_digits [of n] have "list_all is_digit ds" by simp
  from takeWhile_digits [OF this assms] cd c show ?thesis
    by (simp add: match_int_def next_is_def)
qed

lemma match_int_negative:
  assumes "ends_value rest"
  shows "match_int (45 # str_nat n @ rest) = Some (45 # str_nat n, rest)"
proof -
  have "match_int (45 # str_nat n @ rest) =
          (case match_int (str_nat n @ rest) of None \<Rightarrow> None | Some (ip, r) \<Rightarrow> Some (45 # ip, r))"
    using str_nat_digits [of n]
    by (cases "str_nat n") (auto simp: match_int_def next_is_def Let_def is_digit_def)
  then show ?thesis by (simp add: match_int_str_nat [OF assms])
qed

lemma match_frac_end: "ends_value rest \<Longrightarrow> match_frac rest = ([], rest)"
  by (auto simp: match_frac_def ends_value_def split: list.splits)

lemma match_exp_end: "ends_value rest \<Longrightarrow> match_exp rest = ([], rest)"
  by (auto simp: match_exp_def ends_value_def split: list.splits)

lemma int_of_literal_str_nat: "int_of_literal (str_nat n) = int n"
proof -
  have "\<not> next_is 45 (str_nat n)"
    using str_nat_digits [of n] by (cases "str_nat n") (auto simp: next_is_def is_digit_def)
  then show ?thesis by (simp add: int_of_literal_def digits_value_str_nat)
qed

lemma match_number_str_int:
  assumes "ends_value rest"
  shows "match_number (str_int i @ rest) = Inr (JInt i, rest)"
proof (cases "i < 0")
  case True
  have "int_of_literal (45 # str_nat (nat (- i))) = i"
    using True by (simp add: int_of_literal_def next_is_def digits_value_str_nat)
  with True show ?thesis
    by (simp add: match_number_def str_int_def match_int_negative [OF assms]
        match_frac_end [OF assms] match_exp_end [OF assms])
next
  case False
  then show ?thesis
    by (simp add: match_number_def str_int_def match_int_str_nat [OF assms]
        match_frac_end [OF assms] match_exp_end [OF assms] int_of_literal_str_nat)
qed

lemma str_int_first:
  "\<exists>c t. str_int i = c # t \<and> (is_digit c \<or> (c = 45 \<and> t \<noteq> [] \<and> is_digit (hd t)))"
proof -
  have "\<exists>c t. str_nat n = c # t \<and> is_digit c" for n
    using str_nat_digits [of n] by (cases "str_nat n") auto
  then show ?thesis
    by (auto simp: str_int_def) (metis list.sel(1) list.simps(3))+
qed

lemma scan_once_number:
  assumes "is_digit c \<or> (c = 45 \<and> t \<noteq> [] \<and> is_digit (hd t))"
  shows "scan_once (c # t) = match_number (c # t)"
  using assms
  by (subst scan_once.simps) (auto simp: is_digit_def starts_with_def py_def neq_Nil_conv)

lemma scan_once_int:
  assumes "ends_value rest"
  shows "scan_once (str_int i @ rest) = Inr (JInt i, rest)"
proof -
  from str_int_first [of i] obtain c t where
    ct: "str_int i = c # t" "is_digit c \<or> (c = 45 \<and> t \<noteq> [] \<and> is_digit (hd t))"
    by blast
  then have "is_digit c \<or> (c = 45 \<and> t @ rest \<noteq> [] \<and> is_digit (hd (t @ rest)))"
    by auto
  from scan_once_number [OF this] ct(1) match_number_str_int [OF assms, of i]
  show ?thesis by simp
qed

subsection \<open>Values\<close>

lemma skip_ws_nonws: "s = c # t \<Longrightarrow> \<not> is_ws c \<Longrightarrow> skip_ws s = s"
  by (simp add: skip_ws_def)

lemma skip_ws_space: "skip_ws (32 # s) = skip_ws s"
  by (simp add: skip_ws_def is_ws_def)

lemma json_dumps_first:
  "representable ea v \<Longrightarrow>
     \<exists>c t. json_dumps ea v = c # t \<and> \<not> is_ws c \<and> c \<noteq> 93 \<and> c \<noteq> 125 \<and> c < 128"
proof (cases v)
  case (JInt i)
  from str_int_first [of i] show ?thesis
    unfolding JInt by (auto simp: is_ws_def is_digit_def)
qed (auto simp: py_def is_ws_def encode_basestring_def)

lemma dict_of_pairs_distinct:
  assumes "distinct (map fst ps)"
  shows "dict_of_pairs ps = ps"
proof -
  have "distinct (map fst (d @ qs)) \<Longrightarrow>
          foldl (\<lambda>d (k, v). AList.update k v d) d qs = d @ qs" for d qs
  proof (induction qs arbitrary: d)
    case Nil
    then show ?case by simp
  next
    case (Cons q qs)
    obtain k v where q: "q = (k, v)" by (cases q)
    from Cons.prems q have "k \<notin> fst ` set d" by auto
    then have u: "AList.update k v d = d @ [(k, v)]"
      by (induction d) auto
    from Cons.prems q have "distinct (map fst ((d @ [(k, v)]) @ qs))" by simp
    from Cons.IH [OF this] u q show ?case by simp
  qed
  from this [of "[]" ps] assms show ?thesis by (simp add: dict_of_pairs_def)
qed

lemma ends_value_simps:
  "ends_value []" "ends_value (93 # r)" "ends_value (44 # r)" "ends_value (125 # r)"
  by (simp_all add: ends_value_def)

lemma skip_ws_dumps:
  assumes "representable ea v"
  shows "skip_ws (json_dumps ea v @ rest) = json_dumps ea v @ rest"
    and "skip_ws (32 # json_dumps ea v @ rest) = json_dumps ea v @ rest"
    and "\<not> next_is 93 (json_dumps ea v @ rest)"
proof -
  from json_dumps_first [OF assms] obtain c t where
    ct: "json_dumps ea v = c # t" "\<not> is_ws c" "c \<noteq> 93" by blast
  then show "skip_ws (json_dumps ea v @ rest) = json_dumps ea v @ rest"
    by (simp add: skip_ws_def)
  then show "skip_ws (32 # json_dumps ea v @ rest) = json_dumps ea v @ rest"
    by (simp add: skip_ws_space)
  from ct show "\<not> next_is 93 (json_dumps ea v @ rest)"
    by (simp add: next_is_def)
qed

lemma skip_ws_key:
  "skip_ws (encode_basestring ea k @ rest) = encode_basestring ea k @ rest"
  "skip_ws (32 # encode_basestring ea k @ rest) = encode_basestring ea k @ rest"
  "next_is 34 (encode_basestring ea k @ rest)"
  "\<not> next_is 125 (encode_basestring ea k @ rest)"
  by (simp_all add: encode_basestring_def skip_ws_def is_ws_def next_is_def)

lemma decode_encoded:
  "representable ea v \<Longrightarrow> ends_value rest \<Longrightarrow>
     scan_once (json_dumps ea v @ rest) = Inr (v, rest)"
  "vs \<noteq> [] \<Longrightarrow> representable_items ea vs \<Longrightarrow>
     parse_array (dumps_items ea vs @ rest) = Inr (vs, rest)"
  "ps \<noteq> [] \<Longrightarrow> representable_pairs ea ps \<Longrightarrow>
     parse_object (dumps_pairs ea ps @ rest) = Inr (ps, rest)"
proof (induction ea v and ea vs and ea ps arbitrary: rest and rest and rest
       rule: json_dumps_dumps_items_dumps_pairs.induct)
  case (1 ea)
  show ?case
    by (subst scan_once.simps) (simp add: py_def starts_with_def)
next
  case (2 ea b)
  show ?case
    by (subst scan_once.simps) (simp add: py_def starts_with_def)
next
  case (3 ea i)
  then show ?case by (simp add: scan_once_int)
next
  case (4 ea lit)
  then show ?case by simp
next
  case (5 ea s)
  then show ?case by (simp add: scan_once_string)
next
  case (6 ea vs)
  show ?case
  proof (cases vs)
    case Nil
    then show ?thesis
      by (subst scan_once.simps) (simp add: skip_ws_def is_ws_def next_is_def)
  next
    case (Cons v ws)
    with "6.prems" have rv: "representable ea v" and ri: "representable_items ea vs"
      by simp_all
    obtain d where d: "dumps_items ea vs = json_dumps ea v @ d"
      using Cons by (cases ws) auto
    have sk: "skip_ws (dumps_items ea vs @ rest) = dumps_items ea vs @ rest"
      and n93: "\<not> next_is 93 (dumps_items ea vs @ rest)"
      using skip_ws_dumps(1,3) [OF rv, of "d @ rest"] d by simp_all
    have "parse_array (dumps_items ea vs @ rest) = Inr (vs, rest)"
      using "6.IH" [of rest] Cons ri by simp
    then show ?thesis
      using sk n93 by (subst scan_once.simps) (simp add: Let_def)
  qed
next
  case (7 ea ps)
  then have dk: "distinct (map fst ps)" and rp: "representable_pairs ea ps"
    by simp_all
  show ?case
  proof (cases ps)
    case Nil
    then show ?thesis
      by (subst scan_once.simps) (simp add: skip_ws_def is_ws_def next_is_def)
  next
    case (Cons p qs)
    obtain k v where p: "p = (k, v)" by (cases p)
    obtain d where d: "dumps_pairs ea ps = encode_basestring ea k @ d"
      using Cons p by (cases qs) auto
    have sk: "skip_ws (dumps_pairs ea ps @ rest) = dumps_pairs ea ps @ rest"
      and n125: "\<not> next_is 125 (dumps_pairs ea ps @ rest)"
      using skip_ws_key(1,4) [of ea k "d @ rest"] d by simp_all
    have "parse_object (dumps_pairs ea ps @ rest) = Inr (ps, rest)"
      using "7.IH" [of rest] Cons rp by simp
    then show ?thesis
      using sk n125 dict_of_pairs_distinct [OF dk]
      by (subst scan_once.simps) (simp add: Let_def)
  qed
next
  case (8 ea)
  then show ?case by simp
next
  case (9 ea v)
  then have rv: "representable ea v" by simp
  have "scan_once (json_dumps ea v @ 93 # rest) = Inr (v, 93 # rest)"
    using "9.IH" [OF rv, of "93 # rest"] by (simp add: ends_value_simps)
  then show ?case
    by (subst parse_array_eq) (simp add: skip_ws_def is_ws_def next_is_def)
next
  case (10 ea v w vs)
  then have rv: "representable ea v" and rw: "representable ea w"
    and ri: "representable_items ea (w # vs)"
    by simp_all
  let ?tail = "dumps_items ea (w # vs) @ rest"
  have so: "scan_once (json_dumps ea v @ 44 # 32 # ?tail) = Inr (v, 44 # 32 # ?tail)"
    using "10.IH"(1) [OF rv, of "44 # 32 # ?tail"] by (simp add: ends_value_simps)
  obtain d where d: "dumps_items ea (w # vs) = json_dumps ea w @ d"
    by (cases vs) auto
  have sk: "skip_ws (32 # ?tail) = ?tail"
    using skip_ws_dumps(2) [OF rw, of "d @ rest"] d by simp
  have pa: "parse_array ?tail = Inr (w # vs, rest)"
    using "10.IH"(2) [of rest] ri by simp
  show ?case
    using so sk pa
    by (subst parse_array_eq) (simp add: skip_ws_def is_ws_def next_is_def)
next
  case (11 ea)
  then show ?case by simp
next
  case (12 ea k v)
  then have tk: "text_ok ea k" and rv: "representable ea v" by simp_all
  let ?after = "58 # 32 # json_dumps ea v @ 125 # rest"
  have ss: "scanstring b (tl (encode_basestring ea k @ ?after)) = Inr (k, ?after)" for b
    using scanstring_encoded [OF tk, of b ?after] by (simp add: encode_basestring_def)
  have sk: "skip_ws (32 # json_dumps ea v @ 125 # rest) = json_dumps ea v @ 125 # rest"
    using skip_ws_dumps(2) [OF rv] by simp
  have so: "scan_once (json_dumps ea v @ 125 # rest) = Inr (v, 125 # rest)"
    using "12.IH" [OF rv, of "125 # rest"] by (simp add: ends_value_simps)
  show ?case
    using ss sk so skip_ws_key(3) [of ea k ?after]
    by (subst parse_object_eq) (simp add: skip_ws_def is_ws_def next_is_def)
next
  case (13 ea k v q ps)
  then have tk: "text_ok ea k" and rv: "representable ea v"
    and rp: "representable_pairs ea (q # ps)"
    by simp_all
  let ?tail = "dumps_pairs ea (q # ps) @ rest"
  let ?after = "58 # 32 # json_dumps ea v @ 44 # 32 # ?tail"
  have ss: "scanstring b (tl (encode_basestring ea k @ ?after)) = Inr (k, ?after)" for b
    using scanstring_encoded [OF tk, of b ?after] by (simp add: encode_basestring_def)
  have sk: "skip_ws (32 # json_dumps ea v @ 44 # 32 # ?tail) = json_dumps ea v @ 44 # 32 # ?tail"
    using skip_ws_dumps(2) [OF rv] by simp
  have so: "scan_once (json_dumps ea v @ 44 # 32 # ?tail) = Inr (v, 44 # 32 # ?tail)"
    using "13.IH"(1) [OF rv, of "44 # 32 # ?tail"] by (simp add: ends_value_simps)
  obtain k' v' where q: "q = (k', v')" by (cases q)
  obtain d where d: "dumps_pairs ea (q # ps) = encode_basestring ea k' @ d"
    using q by (cases ps) auto
  have sk2: "skip_ws (32 # ?tail) = ?tail"
    using skip_ws_key(2) [of ea k' "d @ rest"] d by simp
  have po: "parse_object ?tail = Inr (q # ps, rest)"
    using "13.IH"(2) [of rest] rp by simp
  show ?case
    using ss sk so sk2 po skip_ws_key(3) [of ea k ?after]
    by (subst parse_object_eq) (simp add: skip_ws_def is_ws_def next_is_def)
qed

text \<open>
  C8. For every representable structure \<open>X\<close> and either setting of \<^verbatim>\<open>ensure_ascii\<close>,
  \<open>extract_json_or_raise\<close> applied to the serialisation of \<open>X\<close> returns \<open>X\<close>: the strict parse
  of the first branch succeeds with \<open>X\<close>. Association lists are compared as they are, so
  the dictionary comes back with its keys in the same order.
\<close>

theorem extract_inverts_dumps:
  assumes "representable ea X"
  shows "extract_json_or_raise (json_dumps ea X) = Inr X"
proof -
  from json_dumps_first [OF assms] obtain c t where
    ct: "json_dumps ea X = c # t" "c < 128" by blast
  then have bom: "\<not> next_is 0xFEFF (json_dumps ea X)"
    by (simp add: next_is_def)
  have sk: "skip_ws (json_dumps ea X) = json_dumps ea X"
    using skip_ws_dumps(1) [OF assms, of "[]"] by simp
  have so: "scan_once (json_dumps ea X) = Inr (X, [])"
    using decode_encoded(1) [OF assms, of "[]"] by (simp add: ends_value_simps)
  have "json_loads (json_dumps ea X) = Inr X"
    using bom sk so by (simp add: json_loads_def skip_ws_def)
  then show ?thesis
    by (simp add: extract_json_or_raise_def)
qed

theorem extract_inverts_dumps_witness:
  "representable True
     (JObject [(py ''companies'',
                JArray [JObject [(py ''name'', JString [65, 99, 109, 233])],
                        JInt (- 3), JNull, JBool True])])
   \<and> json_dumps True
       (JObject [(py ''companies'',
                  JArray [JObject [(py ''name'', JString [65, 99, 109, 233])],
                          JInt (- 3), JNull, JBool True])])
     = py ''{\"companies\": [{\"name\": \"Acm'' @ [92] @ py ''u00e9\"}, -3, null, true]}''
   \<and> extract_json_or_raise
       (py ''{\"companies\": [{\"name\": \"Acm'' @ [92] @ py ''u00e9\"}, -3, null, true]}'')
     = Inr (JObject [(py ''companies'',
                      JArray [JObject [(py ''name'', JString [65, 99, 109, 233])],
                              JInt (- 3), JNull, JBool True])])"
proof -
  let ?X = "JObject [(py ''companies'',
                JArray [JObject [(py ''name'', JString [65, 99, 109, 233])],
                        JInt (- 3), JNull, JBool True])]"
  have r: "representable True ?X"
    by (simp add: text_ok_def scalar_value_def py_def)
  have d: "json_dumps True ?X
     = py ''{\"companies\": [{\"name\": \"Acm'' @ [92] @ py ''u00e9\"}, -3, null, true]}''"
    by (simp add: encode_basestring_def escape_char_def u_escape_def hex_char_def str_int_def
        str_nat.simps py_def)
  show ?thesis
    using extract_inverts_dumps [OF r] r d by simp
qed

text \<open>
  Why the strings are restricted under \<^verbatim>\<open>ensure_ascii\<close>: a string of two code points, a high
  surrogate followed by a low one, is written as two escapes, which the decoder reads as
  one supplementary character.
\<close>

lemma surrogate_pair_is_joined:
  "json_dumps True (JString [0xD83D, 0xDE00]) = [34] @ [92] @ py ''ud83d'' @ [92] @ py ''ude00'' @ [34]
   \<and> extract_json_or_raise (json_dumps True (JString [0xD83D, 0xDE00])) = Inr (JString [0x1F600])"
  by (simp add: encode_basestring_def escape_char_def u_escape_def hex_char_def extract_eval)

end
